theory Spec2Isabelle
  imports Complex_Main
begin

section \<open>LANProbe: a shallow embedding of \<^verbatim>\<open>src/lanprobe.py\<close>\<close>

text \<open>
  The program has a sending role (\<^verbatim>\<open>run_server\<close>, \<^verbatim>\<open>server_tcp_session\<close>,
  \<^verbatim>\<open>server_udp_session\<close>) and a receiving role (\<^verbatim>\<open>client_tcp\<close>,
  \<^verbatim>\<open>client_udp\<close>). Both are loops around blocking socket calls and clock reads.

  Modelling decisions, valid for the whole file:
  \<^item> Python floats (clock readings, rates, durations) are exact rationals (\<open>rat\<close>): the
    rounding of IEEE arithmetic is outside the model.
  \<^item> Everything the environment answers (the stop flag, the clocks, the results of
    \<^verbatim>\<open>accept\<close>, \<^verbatim>\<open>sendall\<close>, \<^verbatim>\<open>sendto\<close>, \<^verbatim>\<open>recv\<close>) is
    an input: each loop iteration consumes one observation record holding the answers
    the environment gives during that iteration. The loops never stop by themselves, so
    a function over a finite list of observations computes a finite prefix of the
    execution; when the observations run out the result says that the loop is still
    running (\<open>None\<close> as the remaining observations, or the outcome \<open>Running\<close>).
  \<^item> Everything the program does to the outside (console lines, sleeps, socket calls
    with their results) is appended to a trace of effects.
  \<^item> Exceptions are values: a failing socket call carries the \<^verbatim>\<open>OSError\<close> it
    raises, and a function that lets it escape returns the outcome \<open>Raised\<close>.
  \<^item> \<^verbatim>\<open>KeyboardInterrupt\<close>, an asynchronous signal, is not modelled; the
    cancellation flag \<^verbatim>\<open>stop_event\<close> is read from the environment instead.
  \<^item> Creating and binding the sockets is taken as done: the model of
    \<^verbatim>\<open>run_server\<close> starts at its \<^verbatim>\<open>try\<close> block (line 129), the model of
    \<^verbatim>\<open>client_tcp\<close> at \<^verbatim>\<open>connect\<close>, the model of \<^verbatim>\<open>client_udp\<close> after
    \<^verbatim>\<open>bind\<close>.
\<close>

subsection \<open>Command line arguments\<close>

datatype proto = Tcp | Udp

record args =
  proto :: proto
  speed :: rat
  time :: rat
  host :: string
  packet :: int
  target :: "string option"
  port :: int

subsection \<open>Errors, observations and effects\<close>

text \<open>The subclasses of \<^verbatim>\<open>OSError\<close> the code names, and \<open>OtherOSError\<close> for the rest.\<close>

datatype os_error = BrokenPipeError | ConnectionResetError | OtherOSError

datatype send_result = Sent | SendFailed os_error

datatype accept_result = Accepted | AcceptTimeout | AcceptFailed os_error

text \<open>\<open>Data n\<close>: the call returned \<open>n\<close> bytes; \<open>Data 0\<close> is the zero-length read.\<close>

datatype recv_result = Data nat | RecvTimeout | RecvFailed os_error

datatype connect_result = Connected | ConnectFailed os_error

text \<open>
  One loop iteration as the environment answers it: \<^verbatim>\<open>stop_event.is_set()\<close> at the
  loop head, the same flag as the \<^verbatim>\<open>except\<close> handler of the UDP sender reads it,
  \<^verbatim>\<open>time.perf_counter()\<close>, \<^verbatim>\<open>time.time()\<close>, and the results that
  \<^verbatim>\<open>accept\<close>, \<^verbatim>\<open>sendall\<close>/\<^verbatim>\<open>sendto\<close> and
  \<^verbatim>\<open>recv\<close>/\<^verbatim>\<open>recvfrom\<close> give when called. An iteration reads only the
  fields of the calls it makes.
\<close>

record observation =
  is_set :: bool
  is_set_handler :: bool
  perf_counter :: rat
  time_now :: rat
  accept :: accept_result
  send :: send_result
  recv :: recv_result

text \<open>Console lines, by what they say; statistics carry their numbers.\<close>

datatype message =
    WaitingForTcp int
  | ClientConnected
  | ClientDisconnected
  | ReadyForNext
  | ServerStopped
  | UdpStart string rat
  | UdpSendError os_error
  | TcpConnected
  | ConnectLatency
  | FirstPacketLatency
  | ServerClosedAtOnce
  | FirstPacketTimeout
  | ServerClosed
  | WaitingForUdp int
  | TrafficDetected
  | NoTraffic
  | Sample rat rat nat
  | FinalAverage rat rat nat

datatype effect =
    Print message
  | Sleep rat
  | ListenSetTimeout rat
  | AcceptCall accept_result
  | ConnSetTimeoutNone
  | SendAll nat send_result
  | SendTo nat "string \<times> int" send_result
  | ConnClose
  | ListenClose
  | ConnectCall connect_result
  | SockSetTimeout rat
  | Recv recv_result
  | SockClose

subsection \<open>The paced sender\<close>

text \<open>Lines 167--169 and 199--201.\<close>

definition bytes_per_sec :: "args \<Rightarrow> rat" where
  "bytes_per_sec a = speed a * 125000"

definition interval :: "args \<Rightarrow> rat" where
  "interval a = (if bytes_per_sec a > 0 then of_int (packet a) / bytes_per_sec a else 0)"

text \<open>\<^verbatim>\<open>len(b"0" * packet_size)\<close>: a negative count gives the empty payload.\<close>

definition data_len :: "args \<Rightarrow> nat" where
  "data_len a = nat (packet a)"

text \<open>Lines 176--177 and 208--209: sleep until the deadline if it lies ahead.\<close>

definition pace :: "rat \<Rightarrow> rat \<Rightarrow> effect list" where
  "pace now next_send_time =
     (if now < next_send_time then [Sleep (max 0 (next_send_time - now))] else [])"

text \<open>
  What a sender loop hands back: its trace, the deadline it ended with, and the
  observations left for the caller (\<open>None\<close>: the loop is still running).
\<close>

record sender_run =
  trace :: "effect list"
  deadline :: rat
  rest :: "observation list option"

definition emit :: "effect list \<Rightarrow> sender_run \<Rightarrow> sender_run" where
  "emit es r = r\<lparr>trace := es @ trace r\<rparr>"

lemma deadline_emit [simp]: "deadline (emit es r) = deadline r"
  by (simp add: emit_def)

lemma rest_emit [simp]: "rest (emit es r) = rest r"
  by (simp add: emit_def)

lemma trace_emit [simp]: "trace (emit es r) = es @ trace r"
  by (simp add: emit_def)

text \<open>
  Lines 173--184 of \<^verbatim>\<open>server_tcp_session\<close>: the send loop with its
  \<^verbatim>\<open>except\<close> and \<^verbatim>\<open>finally\<close> clauses.
\<close>

fun tcp_stream :: "args \<Rightarrow> rat \<Rightarrow> observation list \<Rightarrow> sender_run" where
  "tcp_stream a next_send_time [] =
     \<lparr>trace = [], deadline = next_send_time, rest = None\<rparr>"
| "tcp_stream a next_send_time (ob # obs) =
     (if is_set ob then
        \<lparr>trace = [ConnClose, Print ReadyForNext], deadline = next_send_time, rest = Some obs\<rparr>
      else
        (case send ob of
           SendFailed e \<Rightarrow>
             \<lparr>trace = pace (perf_counter ob) next_send_time @
                 [SendAll (data_len a) (SendFailed e), Print ClientDisconnected,
                  ConnClose, Print ReadyForNext],
               deadline = next_send_time, rest = Some obs\<rparr>
         | Sent \<Rightarrow>
             emit (pace (perf_counter ob) next_send_time @ [SendAll (data_len a) Sent])
               (tcp_stream a (next_send_time + interval a) obs)))"

text \<open>Lines 148--163: the accept loop. \<open>Inl\<close>: no connection, the session returns.\<close>

fun tcp_accept :: "observation list \<Rightarrow> effect list \<times> (observation list + rat \<times> observation list) option" where
  "tcp_accept [] = ([], None)"
| "tcp_accept (ob # obs) =
     (if is_set ob then ([], Some (Inl obs))
      else
        (case accept ob of
           Accepted \<Rightarrow>
             ([AcceptCall Accepted, Print ClientConnected], Some (Inr (perf_counter ob, obs)))
         | AcceptTimeout \<Rightarrow>
             (case tcp_accept obs of (es, r) \<Rightarrow> (AcceptCall AcceptTimeout # es, r))
         | AcceptFailed e \<Rightarrow> ([AcceptCall (AcceptFailed e)], Some (Inl obs))))"

text \<open>
  \<^verbatim>\<open>server_tcp_session\<close>. The clock read of line 171 is the reading of the
  observation in which the connection was accepted. A session that returns without a
  connection has no deadline; the field is 0 then.
\<close>

definition server_tcp_session :: "args \<Rightarrow> observation list \<Rightarrow> sender_run" where
  "server_tcp_session a obs =
     emit [Print (WaitingForTcp (port a)), ListenSetTimeout 1]
       (case tcp_accept obs of
          (es, None) \<Rightarrow> \<lparr>trace = es, deadline = 0, rest = None\<rparr>
        | (es, Some (Inl obs')) \<Rightarrow> \<lparr>trace = es, deadline = 0, rest = Some obs'\<rparr>
        | (es, Some (Inr (t0, obs'))) \<Rightarrow>
            emit (es @ [ConnSetTimeoutNone]) (tcp_stream a t0 obs'))"

text \<open>Lines 188--193: \<^verbatim>\<open>if args.target\<close> is false for \<^verbatim>\<open>None\<close> and for the empty string.\<close>

definition dest_addr :: "args \<Rightarrow> string \<times> int" where
  "dest_addr a =
     (case target a of
        Some t \<Rightarrow> if t \<noteq> [] then (t, port a) else (''255.255.255.255'', port a)
      | None \<Rightarrow> (''255.255.255.255'', port a))"

definition addr_desc :: "args \<Rightarrow> string" where
  "addr_desc a =
     (case target a of
        Some t \<Rightarrow> if t \<noteq> [] then t else ''broadcast (255.255.255.255)''
      | None \<Rightarrow> ''broadcast (255.255.255.255)'')"

text \<open>
  Lines 205--215 of \<^verbatim>\<open>server_udp_session\<close>: the send loop inside its
  \<^verbatim>\<open>try\<close>; the handler sits outside the loop, so a failed \<^verbatim>\<open>sendto\<close>
  ends the loop and the session.
\<close>

fun udp_stream :: "args \<Rightarrow> rat \<Rightarrow> observation list \<Rightarrow> sender_run" where
  "udp_stream a next_send_time [] =
     \<lparr>trace = [], deadline = next_send_time, rest = None\<rparr>"
| "udp_stream a next_send_time (ob # obs) =
     (if is_set ob then
        \<lparr>trace = [], deadline = next_send_time, rest = Some obs\<rparr>
      else
        (case send ob of
           SendFailed e \<Rightarrow>
             \<lparr>trace = pace (perf_counter ob) next_send_time @
                 [SendTo (data_len a) (dest_addr a) (SendFailed e)] @
                 (if \<not> is_set_handler ob then [Print (UdpSendError e)] else []),
               deadline = next_send_time, rest = Some obs\<rparr>
         | Sent \<Rightarrow>
             emit (pace (perf_counter ob) next_send_time @
                   [SendTo (data_len a) (dest_addr a) Sent])
               (udp_stream a (next_send_time + interval a) obs)))"

text \<open>
  \<^verbatim>\<open>server_udp_session\<close>; \<open>t0\<close> is the clock read of line 203.
\<close>

definition server_udp_session :: "args \<Rightarrow> rat \<Rightarrow> observation list \<Rightarrow> sender_run" where
  "server_udp_session a t0 obs =
     emit [Print (UdpStart (addr_desc a) (speed a))] (udp_stream a t0 obs)"

subsection \<open>The server loop\<close>

datatype outcome = Running | Returned | Raised os_error

definition then_run :: "effect list \<Rightarrow> effect list \<times> outcome \<Rightarrow> effect list \<times> outcome" where
  "then_run es r = (es @ fst r, snd r)"

text \<open>A session hands back fewer observations than it was given.\<close>

lemma tcp_stream_rest_shorter:
  "rest (tcp_stream a d obs) = Some obs' \<Longrightarrow> length obs' < length obs"
  by (induction obs arbitrary: d)
    (auto simp: emit_def split: if_splits send_result.splits intro: less_SucI)

lemma udp_stream_rest_shorter:
  "rest (udp_stream a d obs) = Some obs' \<Longrightarrow> length obs' < length obs"
  by (induction obs arbitrary: d)
    (auto simp: emit_def split: if_splits send_result.splits intro: less_SucI)

lemma tcp_accept_rest_shorter:
  "tcp_accept obs = (es, Some r) \<Longrightarrow>
     (case r of Inl obs' \<Rightarrow> length obs' < length obs
      | Inr (t0, obs') \<Rightarrow> length obs' < length obs)"
proof (induction obs arbitrary: es)
  case Nil
  then show ?case by simp
next
  case (Cons ob obs)
  show ?case
  proof (cases "\<not> is_set ob \<and> accept ob = AcceptTimeout")
    case True
    with Cons.prems obtain es' where "tcp_accept obs = (es', Some r)"
      by (auto split: prod.splits)
    from Cons.IH [OF this] show ?thesis
      by (auto split: sum.splits prod.splits)
  next
    case False
    with Cons.prems show ?thesis
      by (auto split: if_splits accept_result.splits)
  qed
qed

lemma server_tcp_session_rest_shorter:
  "rest (server_tcp_session a obs) = Some obs' \<Longrightarrow> length obs' < length obs"
proof -
  assume r: "rest (server_tcp_session a obs) = Some obs'"
  obtain es x where acc: "tcp_accept obs = (es, x)"
    by (cases "tcp_accept obs")
  show ?thesis
  proof (cases x)
    case None
    with r acc show ?thesis by (simp add: server_tcp_session_def)
  next
    case (Some y)
    show ?thesis
    proof (cases y)
      case (Inl obs1)
      with r acc Some tcp_accept_rest_shorter [of obs es y] show ?thesis
        by (simp add: server_tcp_session_def)
    next
      case (Inr p)
      obtain t0 obs1 where p: "p = (t0, obs1)" by (cases p)
      with r acc Some Inr have "rest (tcp_stream a t0 obs1) = Some obs'"
        by (simp add: server_tcp_session_def)
      then have "length obs' < length obs1" by (rule tcp_stream_rest_shorter)
      moreover from acc Some Inr p tcp_accept_rest_shorter [of obs es y]
      have "length obs1 < length obs" by simp
      ultimately show ?thesis by simp
    qed
  qed
qed

lemma server_udp_session_rest_shorter:
  "rest (server_udp_session a t0 obs) = Some obs' \<Longrightarrow> length obs' < length obs"
  by (simp add: server_udp_session_def udp_stream_rest_shorter)

text \<open>
  Lines 129--139 of \<^verbatim>\<open>run_server\<close>: one session after the other until the stop
  flag is set, then the listening socket is closed. The observation read at the loop
  head also gives the clock read with which a UDP session starts (line 203).
\<close>

definition session :: "args \<Rightarrow> observation \<Rightarrow> observation list \<Rightarrow> sender_run" where
  "session a ob obs =
     (if proto a = Tcp then server_tcp_session a obs
      else server_udp_session a (perf_counter ob) obs)"

lemma session_rest_shorter:
  "rest (session a ob obs) = Some obs' \<Longrightarrow> length obs' < length obs"
  by (auto simp: session_def server_tcp_session_rest_shorter server_udp_session_rest_shorter
      split: if_splits)

function run_server :: "args \<Rightarrow> observation list \<Rightarrow> effect list \<times> outcome" where
  "run_server a [] = ([], Running)"
| "run_server a (ob # obs) =
     (if is_set ob then ([ListenClose, Print ServerStopped], Returned)
      else
        (case rest (session a ob obs) of
           None \<Rightarrow> (trace (session a ob obs), Running)
         | Some obs' \<Rightarrow> then_run (trace (session a ob obs)) (run_server a obs')))"
  by pat_completeness auto
termination
proof (relation "measure (\<lambda>(a, obs). length obs)")
  show "wf (measure (\<lambda>(a, obs). length obs))" by simp
next
  fix a :: args and ob :: observation and obs obs' :: "observation list"
  assume "rest (session a ob obs) = Some obs'"
  then have "length obs' < length obs" by (rule session_rest_shorter)
  then show "((a, obs'), (a, ob # obs)) \<in> measure (\<lambda>(a, obs). length obs)" by simp
qed

subsection \<open>The receiver\<close>

text \<open>
  The counters of the receive loops (lines 253--256 and 317--320).
\<close>

record sampler =
  total_bytes :: nat
  start_time :: rat
  last_report_time :: rat
  last_bytes :: nat

text \<open>
  Lines 266--278 and 327--339: count the bytes, and report a sample when at least one
  second has passed since the last report. The sample carries the elapsed time, the rate
  in Mbit/s and the total byte count.
\<close>

definition on_receive :: "sampler \<Rightarrow> nat \<Rightarrow> rat \<Rightarrow> effect list \<times> sampler" where
  "on_receive s n now =
     (let new_total = total_bytes s + n in
      if now - last_report_time s \<ge> 1 then
        (let delta_bytes = of_nat new_total - of_nat (last_bytes s);
             speed_mbps = (delta_bytes * 8) / (now - last_report_time s) / 1000000;
             elapsed = now - start_time s
         in ([Print (Sample elapsed speed_mbps new_total)],
             s\<lparr>total_bytes := new_total, last_report_time := now,
               last_bytes := new_total\<rparr>))
      else ([], s\<lparr>total_bytes := new_total\<rparr>))"

text \<open>
  Lines 285--291 and 350--356: the final report, printed only when time has passed.
  It carries the average in Mbit/s, the elapsed time and the total byte count.
\<close>

definition final_report :: "nat \<Rightarrow> rat \<Rightarrow> rat \<Rightarrow> effect list" where
  \<comment> \<open>\<open>nbytes\<close> is \<^verbatim>\<open>total_bytes\<close>, \<open>started\<close> is \<^verbatim>\<open>start_time\<close>, \<open>now\<close> is \<^verbatim>\<open>time.time()\<close>\<close>
  "final_report nbytes started now =
     (let final_time = now - started in
      if final_time > 0 then
        [Print (FinalAverage ((of_nat nbytes * 8) / final_time / 1000000) final_time nbytes)]
      else [])"

text \<open>
  What a receive loop hands back: its trace, the counters, and how it ended
  (\<open>Running\<close>: it has not ended yet; \<open>Raised e\<close>: the exception left the loop).
\<close>

type_synonym measure_run = "effect list \<times> sampler \<times> outcome"

definition emitting :: "effect list \<Rightarrow> measure_run \<Rightarrow> measure_run" where
  "emitting es r = (es @ fst r, snd r)"

text \<open>Lines 259--283 of \<^verbatim>\<open>client_tcp\<close>.\<close>

fun tcp_measure :: "args \<Rightarrow> sampler \<Rightarrow> observation list \<Rightarrow> measure_run" where
  "tcp_measure a s [] = ([], s, Running)"
| "tcp_measure a s (ob # obs) =
     (if is_set ob then ([], s, Returned)
      else
        (case recv ob of
           RecvTimeout \<Rightarrow>
             emitting [SockSetTimeout (1 / 10), Recv RecvTimeout] (tcp_measure a s obs)
         | RecvFailed e \<Rightarrow>
             ([SockSetTimeout (1 / 10), Recv (RecvFailed e)], s, Raised e)
         | Data n \<Rightarrow>
             if n = 0 then
               ([SockSetTimeout (1 / 10), Recv (Data n), Print ServerClosed], s, Returned)
             else
               (case on_receive s n (time_now ob) of
                  (out, s') \<Rightarrow>
                    if time_now ob - start_time s' \<ge> time a then
                      ([SockSetTimeout (1 / 10), Recv (Data n)] @ out, s', Returned)
                    else
                      emitting ([SockSetTimeout (1 / 10), Recv (Data n)] @ out)
                        (tcp_measure a s' obs))))"

text \<open>Lines 324--344 of \<^verbatim>\<open>client_udp\<close>.\<close>

fun udp_measure :: "args \<Rightarrow> sampler \<Rightarrow> observation list \<Rightarrow> measure_run" where
  "udp_measure a s [] = ([], s, Running)"
| "udp_measure a s (ob # obs) =
     (if is_set ob then ([], s, Returned)
      else
        (case recv ob of
           RecvTimeout \<Rightarrow> emitting [Recv RecvTimeout] (udp_measure a s obs)
         | RecvFailed e \<Rightarrow> ([Recv (RecvFailed e)], s, Raised e)
         | Data n \<Rightarrow>
             (case on_receive s n (time_now ob) of
                (out, s') \<Rightarrow>
                  if time_now ob - start_time s' \<ge> time a then
                    (Recv (Data n) # out, s', Returned)
                  else emitting (Recv (Data n) # out) (udp_measure a s' obs))))"

text \<open>
  What the environment answers during one receiver session: the result of
  \<^verbatim>\<open>connect\<close> (TCP only), the result of the first receive, the wall clock when the
  measurement starts (lines 254 and 318), the iterations of the receive loop, and the
  wall clock read in the \<^verbatim>\<open>finally\<close> clause (lines 285 and 350).
\<close>

record client_env =
  connect :: connect_result
  first :: recv_result
  t_start :: rat
  ticks :: "observation list"
  t_final :: rat

text \<open>
  The end of both clients: when the loop has ended, normally or by an exception, the
  \<^verbatim>\<open>finally\<close> clause prints the final report and closes the socket; an exception
  then goes on to the caller.
\<close>

definition finish :: "effect list \<Rightarrow> measure_run \<Rightarrow> rat \<Rightarrow> effect list \<times> outcome" where
  "finish pre r t_end =
     (case r of (es, s, oc) \<Rightarrow>
        if oc = Running then (pre @ es, Running)
        else (pre @ es @ final_report (total_bytes s) (start_time s) t_end @ [SockClose], oc))"

text \<open>\<^verbatim>\<open>client_tcp\<close>, lines 227--292.\<close>

definition client_tcp :: "args \<Rightarrow> client_env \<Rightarrow> effect list \<times> outcome" where
  "client_tcp a env =
     (case connect env of
        ConnectFailed e \<Rightarrow> ([ConnectCall (ConnectFailed e)], Raised e)
      | Connected \<Rightarrow>
          (let pre = [ConnectCall Connected, Print TcpConnected, Print ConnectLatency,
                      SockSetTimeout 5]
           in case first env of
                RecvTimeout \<Rightarrow>
                  (pre @ [Recv RecvTimeout, Print FirstPacketTimeout, SockClose], Returned)
              | RecvFailed e \<Rightarrow> (pre @ [Recv (RecvFailed e)], Raised e)
              | Data n \<Rightarrow>
                  if n = 0 then (pre @ [Recv (Data n), Print ServerClosedAtOnce], Returned)
                  else
                    finish (pre @ [Recv (Data n), Print FirstPacketLatency])
                      (tcp_measure a
                         \<lparr>total_bytes = n, start_time = t_start env,
                          last_report_time = t_start env, last_bytes = n\<rparr>
                         (ticks env))
                      (t_final env)))"

text \<open>
  \<^verbatim>\<open>client_udp\<close>, lines 299--357 (the socket is bound). When the first
  \<^verbatim>\<open>recvfrom\<close> does not return data, \<^verbatim>\<open>start_time\<close> is still \<^verbatim>\<open>None\<close> and
  the \<^verbatim>\<open>finally\<close> clause only closes the socket.
\<close>

definition client_udp :: "args \<Rightarrow> client_env \<Rightarrow> effect list \<times> outcome" where
  "client_udp a env =
     (let pre = [SockSetTimeout 5, Print (WaitingForUdp (port a))]
      in case first env of
           RecvTimeout \<Rightarrow> (pre @ [Recv RecvTimeout, Print NoTraffic, SockClose], Returned)
         | RecvFailed e \<Rightarrow> (pre @ [Recv (RecvFailed e), SockClose], Raised e)
         | Data n \<Rightarrow>
             finish
               (pre @ [Recv (Data n), Print TrafficDetected, Print FirstPacketLatency,
                       SockSetTimeout 1])
               (udp_measure a
                  \<lparr>total_bytes = n, start_time = t_start env,
                   last_report_time = t_start env, last_bytes = n\<rparr>
                  (ticks env))
               (t_final env))"

subsection \<open>Reading a trace\<close>

text \<open>The number of packets a trace shows as sent.\<close>

fun is_sent :: "effect \<Rightarrow> bool" where
  "is_sent (SendAll n Sent) = True"
| "is_sent (SendTo n d Sent) = True"
| "is_sent e = False"

definition sends :: "effect list \<Rightarrow> nat" where
  "sends es = length (filter is_sent es)"

fun is_sleep :: "effect \<Rightarrow> bool" where
  "is_sleep (Sleep d) = True"
| "is_sleep e = False"

text \<open>The effects that are a final report, and those that are a receive call.\<close>

fun is_final :: "effect \<Rightarrow> bool" where
  "is_final (Print (FinalAverage avg t n)) = True"
| "is_final e = False"

fun is_recv :: "effect \<Rightarrow> bool" where
  "is_recv (Recv r) = True"
| "is_recv e = False"

definition receives :: "effect list \<Rightarrow> nat" where
  "receives es = length (filter is_recv es)"

text \<open>The elapsed times of the samples in a trace, in order, and what it means for
  them to lie at least one second apart, the first one after \<open>t\<close>.\<close>

fun sample_times :: "effect list \<Rightarrow> rat list" where
  "sample_times [] = []"
| "sample_times (Print (Sample t r n) # es) = t # sample_times es"
| "sample_times (e # es) = sample_times es"

fun spaced :: "rat \<Rightarrow> rat list \<Rightarrow> bool" where
  "spaced t [] = True"
| "spaced t (x # xs) = (1 \<le> x - t \<and> spaced x xs)"

subsection \<open>The exit conditions of the receive loops\<close>

text \<open>
  When an iteration of the Measuring loop is its last, in the words of claim C3 as
  amended: the stop flag is set at the loop head, or the receive returns no bytes (TCP
  only), or it returns data and the wall clock read after it is at least the measurement
  duration past the start time, or it raises an error. A receive that times out is not
  among them. \<open>started\<close> is \<^verbatim>\<open>start_time\<close>. The theorems for C3 compare these
  predicates with the loops of the source.
\<close>

definition tcp_ends :: "args \<Rightarrow> rat \<Rightarrow> observation \<Rightarrow> bool" where
  "tcp_ends a started ob \<longleftrightarrow>
     is_set ob \<or>
     (case recv ob of
        Data n \<Rightarrow> n = 0 \<or> time a \<le> time_now ob - started
      | RecvTimeout \<Rightarrow> False
      | RecvFailed e \<Rightarrow> True)"

definition udp_ends :: "args \<Rightarrow> rat \<Rightarrow> observation \<Rightarrow> bool" where
  "udp_ends a started ob \<longleftrightarrow>
     is_set ob \<or>
     (case recv ob of
        Data n \<Rightarrow> time a \<le> time_now ob - started
      | RecvTimeout \<Rightarrow> False
      | RecvFailed e \<Rightarrow> True)"

subsection \<open>Example inputs\<close>

text \<open>The defaults of the command line (lines 55--92), and an iteration in which nothing
  happens: the flag is clear, the clocks read 0, \<^verbatim>\<open>accept\<close> and \<^verbatim>\<open>recv\<close> time
  out and a send succeeds.\<close>

definition default_args :: args where
  "default_args =
     \<lparr>proto = Tcp, speed = 10, time = 10, host = ''127.0.0.1'', packet = 1400,
      target = None, port = 5000\<rparr>"

definition quiet :: observation where
  "quiet =
     \<lparr>is_set = False, is_set_handler = False, perf_counter = 0, time_now = 0,
      accept = AcceptTimeout, send = Sent, recv = RecvTimeout\<rparr>"

text \<open>Three sends with a clock that jumps ahead and back.\<close>

definition jitter :: "observation list" where
  "jitter =
     [quiet\<lparr>perf_counter := 0\<rparr>, quiet\<lparr>perf_counter := 5\<rparr>, quiet\<lparr>perf_counter := 1\<rparr>]"

text \<open>A clock that never goes back: a loop head, an accepted connection, two sends.\<close>

definition steady :: "observation list" where
  "steady =
     [quiet\<lparr>perf_counter := 1\<rparr>, quiet\<lparr>perf_counter := 2, accept := Accepted\<rparr>,
      quiet\<lparr>perf_counter := 3\<rparr>, quiet\<lparr>perf_counter := 3\<rparr>]"

text \<open>A TCP run with two clients: the first one's connection breaks at its second send.\<close>

definition accepting :: observation where
  "accepting = quiet\<lparr>perf_counter := 1, accept := Accepted\<rparr>"

definition broken_pipe :: observation where
  "broken_pipe = quiet\<lparr>perf_counter := 2, send := SendFailed BrokenPipeError\<rparr>"

definition two_clients :: "observation list" where
  "two_clients =
     [accepting, quiet\<lparr>perf_counter := 1\<rparr>, broken_pipe, quiet\<lparr>perf_counter := 3\<rparr>,
      accepting\<lparr>perf_counter := 4\<rparr>, quiet\<lparr>perf_counter := 4\<rparr>]"

text \<open>A UDP run in which the second send fails.\<close>

definition udp_args :: args where
  "udp_args = default_args\<lparr>proto := Udp\<rparr>"

definition send_error :: observation where
  "send_error = quiet\<lparr>perf_counter := 5, send := SendFailed OtherOSError\<rparr>"

definition flaky :: "observation list" where
  "flaky =
     [quiet, send_error, quiet\<lparr>perf_counter := 5\<rparr>, quiet\<lparr>perf_counter := 5\<rparr>,
      quiet\<lparr>perf_counter := 10001 / 2000\<rparr>]"

text \<open>Receiver sessions: one in which nothing arrives, one that ends in the instant it
  starts, one whose connection is reset, and one that receives for three seconds.\<close>

definition silent_env :: client_env where
  "silent_env =
     \<lparr>connect = Connected, first = RecvTimeout, t_start = 0, ticks = [], t_final = 5\<rparr>"

definition instant_env :: client_env where
  "instant_env =
     \<lparr>connect = Connected, first = Data 1400, t_start = 5,
      ticks = [quiet\<lparr>recv := Data 0, time_now := 5\<rparr>], t_final = 5\<rparr>"

definition reset_env :: client_env where
  "reset_env =
     \<lparr>connect = Connected, first = Data 1400, t_start = 0,
      ticks = [quiet\<lparr>recv := Data 1400, time_now := 1 / 2\<rparr>,
               quiet\<lparr>recv := RecvFailed ConnectionResetError, time_now := 1\<rparr>],
      t_final = 1\<rparr>"

definition busy_env :: client_env where
  "busy_env =
     \<lparr>connect = Connected, first = Data 1400, t_start = 0,
      ticks = [quiet\<lparr>recv := Data 1400, time_now := 1 / 2\<rparr>,
               quiet\<lparr>recv := Data 1400, time_now := 5 / 4\<rparr>,
               quiet\<lparr>recv := Data 1400, time_now := 2\<rparr>,
               quiet\<lparr>recv := Data 1400, time_now := 5 / 2\<rparr>,
               quiet\<lparr>is_set := True\<rparr>],
      t_final = 3\<rparr>"

text \<open>The counters after a first packet of 1400 bytes at time 0, and iterations of the
  receive loop before and after the ten seconds of the default duration.\<close>

definition fresh :: sampler where
  "fresh = \<lparr>total_bytes = 1400, start_time = 0, last_report_time = 0, last_bytes = 1400\<rparr>"

definition early_data :: observation where
  "early_data = quiet\<lparr>time_now := 1 / 2, recv := Data 1400\<rparr>"

definition late_timeout :: observation where
  "late_timeout = quiet\<lparr>time_now := 11\<rparr>"

definition late_data :: observation where
  "late_data = quiet\<lparr>time_now := 12, recv := Data 1400\<rparr>"

section \<open>Properties of the paced sender\<close>

lemma sends_pace [simp]: "sends (pace now d @ es) = sends es"
  by (simp add: sends_def pace_def)

lemma sends_emit_tcp:
  "sends (trace (emit (pace now d @ [SendAll n Sent]) r)) = Suc (sends (trace r))"
  by (simp add: emit_def sends_def pace_def)

lemma sends_emit_udp:
  "sends (trace (emit (pace now d @ [SendTo n ad Sent]) r)) = Suc (sends (trace r))"
  by (simp add: emit_def sends_def pace_def)

lemma tcp_stream_deadline:
  "deadline (tcp_stream a d obs) = d + of_nat (sends (trace (tcp_stream a d obs))) * interval a"
proof (induction obs arbitrary: d)
  case Nil
  show ?case by (simp add: sends_def)
next
  case (Cons ob obs)
  show ?case
  proof (cases "is_set ob")
    case True
    then show ?thesis by (simp add: sends_def)
  next
    case False
    show ?thesis
    proof (cases "send ob")
      case Sent
      with False Cons.IH [of "d + interval a"] show ?thesis
        by (simp add: sends_emit_tcp algebra_simps del: trace_emit)
    next
      case (SendFailed e)
      with False show ?thesis by (simp add: sends_def pace_def)
    qed
  qed
qed

lemma udp_stream_deadline:
  "deadline (udp_stream a d obs) = d + of_nat (sends (trace (udp_stream a d obs))) * interval a"
proof (induction obs arbitrary: d)
  case Nil
  show ?case by (simp add: sends_def)
next
  case (Cons ob obs)
  show ?case
  proof (cases "is_set ob")
    case True
    then show ?thesis by (simp add: sends_def)
  next
    case False
    show ?thesis
    proof (cases "send ob")
      case Sent
      with False Cons.IH [of "d + interval a"] show ?thesis
        by (simp add: sends_emit_udp algebra_simps del: trace_emit)
    next
      case (SendFailed e)
      with False show ?thesis by (simp add: sends_def pace_def)
    qed
  qed
qed

lemma interval_positive_rate:
  "0 < speed a \<Longrightarrow> interval a = of_int (packet a) * 8 / (speed a * 1000000)"
  by (simp add: interval_def bytes_per_sec_def field_simps)



lemma tcp_stream_no_sleep:
  "interval a = 0 \<Longrightarrow> \<forall>ob\<in>set obs. d \<le> perf_counter ob \<Longrightarrow>
     filter is_sleep (trace (tcp_stream a d obs)) = []"
  by (induction obs) (auto simp: pace_def split: send_result.splits)

lemma udp_stream_no_sleep:
  "interval a = 0 \<Longrightarrow> \<forall>ob\<in>set obs. d \<le> perf_counter ob \<Longrightarrow>
     filter is_sleep (trace (udp_stream a d obs)) = []"
  by (induction obs) (auto simp: pace_def split: send_result.splits)

lemma tcp_stream_rest_suffix:
  "rest (tcp_stream a d obs) = Some obs' \<Longrightarrow> \<exists>pre. obs = pre @ obs'"
proof (induction obs arbitrary: d)
  case Nil
  then show ?case by simp
next
  case (Cons ob obs)
  show ?case
  proof (cases "\<not> is_set ob \<and> send ob = Sent")
    case True
    with Cons.prems have "rest (tcp_stream a (d + interval a) obs) = Some obs'" by simp
    from Cons.IH [OF this] obtain pre where "obs = pre @ obs'" ..
    then have "ob # obs = (ob # pre) @ obs'" by simp
    then show ?thesis ..
  next
    case False
    with Cons.prems have "obs' = obs"
      by (auto split: if_splits send_result.splits)
    then have "ob # obs = [ob] @ obs'" by simp
    then show ?thesis ..
  qed
qed

lemma udp_stream_rest_suffix:
  "rest (udp_stream a d obs) = Some obs' \<Longrightarrow> \<exists>pre. obs = pre @ obs'"
proof (induction obs arbitrary: d)
  case Nil
  then show ?case by simp
next
  case (Cons ob obs)
  show ?case
  proof (cases "\<not> is_set ob \<and> send ob = Sent")
    case True
    with Cons.prems have "rest (udp_stream a (d + interval a) obs) = Some obs'" by simp
    from Cons.IH [OF this] obtain pre where "obs = pre @ obs'" ..
    then have "ob # obs = (ob # pre) @ obs'" by simp
    then show ?thesis ..
  next
    case False
    with Cons.prems have "obs' = obs"
      by (auto split: if_splits send_result.splits)
    then have "ob # obs = [ob] @ obs'" by simp
    then show ?thesis ..
  qed
qed

lemma tcp_accept_no_sleep: "filter is_sleep (fst (tcp_accept obs)) = []"
  by (induction obs) (auto split: accept_result.splits prod.splits)

lemma tcp_accept_split:
  "tcp_accept obs = (es, Some r) \<Longrightarrow>
     (case r of Inl obs' \<Rightarrow> \<exists>pre. obs = pre @ obs'
      | Inr (t0, obs') \<Rightarrow> \<exists>pre ob. obs = pre @ ob # obs' \<and> t0 = perf_counter ob)"
proof (induction obs arbitrary: es)
  case Nil
  then show ?case by simp
next
  case (Cons ob obs)
  show ?case
  proof (cases "\<not> is_set ob \<and> accept ob = AcceptTimeout")
    case True
    with Cons.prems obtain es' where "tcp_accept obs = (es', Some r)"
      by (auto split: prod.splits)
    from Cons.IH [OF this] show ?thesis
      by (auto split: sum.splits prod.splits intro: Cons_eq_appendI)
  next
    case False
    with Cons.prems show ?thesis
      by (auto split: if_splits accept_result.splits intro: exI [of _ "[]"] exI [of _ "[ob]"])
  qed
qed


lemma sorted_clock_after:
  "sorted (map perf_counter (pre @ ob # obs)) \<Longrightarrow> \<forall>x\<in>set obs. perf_counter ob \<le> perf_counter x"
  by (auto simp: sorted_append)

lemma sorted_clock_suffix:
  "sorted (map perf_counter (pre @ obs)) \<Longrightarrow> sorted (map perf_counter obs)"
  by (simp add: sorted_append)

lemma server_tcp_session_no_sleep:
  assumes "interval a = 0" and "sorted (map perf_counter obs)"
  shows "filter is_sleep (trace (server_tcp_session a obs)) = []"
proof -
  obtain es x where acc: "tcp_accept obs = (es, x)"
    by (cases "tcp_accept obs")
  have es: "filter is_sleep es = []"
    using tcp_accept_no_sleep [of obs] acc by simp
  show ?thesis
  proof (cases x)
    case None
    with acc es show ?thesis by (simp add: server_tcp_session_def)
  next
    case (Some y)
    show ?thesis
    proof (cases y)
      case (Inl obs1)
      with acc es Some show ?thesis by (simp add: server_tcp_session_def)
    next
      case (Inr p)
      obtain t0 obs1 where p: "p = (t0, obs1)" by (cases p)
      from acc Some Inr p tcp_accept_split [of obs es y]
      obtain pre ob where "obs = pre @ ob # obs1" and "t0 = perf_counter ob" by auto
      with assms(2) have "\<forall>x\<in>set obs1. t0 \<le> perf_counter x"
        using sorted_clock_after by blast
      with assms(1) have "filter is_sleep (trace (tcp_stream a t0 obs1)) = []"
        by (rule tcp_stream_no_sleep)
      with acc es Some Inr p show ?thesis by (simp add: server_tcp_session_def)
    qed
  qed
qed

lemma server_tcp_session_rest_suffix:
  assumes "rest (server_tcp_session a obs) = Some obs'"
  shows "\<exists>pre. obs = pre @ obs'"
proof -
  obtain es x where acc: "tcp_accept obs = (es, x)"
    by (cases "tcp_accept obs")
  show ?thesis
  proof (cases x)
    case None
    with assms acc show ?thesis by (simp add: server_tcp_session_def)
  next
    case (Some y)
    show ?thesis
    proof (cases y)
      case (Inl obs1)
      with assms acc Some tcp_accept_split [of obs es y] show ?thesis
        by (simp add: server_tcp_session_def)
    next
      case (Inr p)
      obtain t0 obs1 where p: "p = (t0, obs1)" by (cases p)
      from acc Some Inr p tcp_accept_split [of obs es y]
      obtain pre ob where 1: "obs = pre @ ob # obs1" by auto
      from assms acc Some Inr p have "rest (tcp_stream a t0 obs1) = Some obs'"
        by (simp add: server_tcp_session_def)
      then obtain pre' where "obs1 = pre' @ obs'"
        using tcp_stream_rest_suffix by blast
      with 1 have "obs = (pre @ ob # pre') @ obs'" by simp
      then show ?thesis ..
    qed
  qed
qed

lemma session_no_sleep:
  assumes "interval a = 0" and "sorted (map perf_counter (ob # obs))"
  shows "filter is_sleep (trace (session a ob obs)) = []"
proof (cases "proto a = Tcp")
  case True
  with assms server_tcp_session_no_sleep [of a obs] show ?thesis
    by (simp add: session_def)
next
  case False
  from assms(2) have "\<forall>x\<in>set obs. perf_counter ob \<le> perf_counter x" by simp
  with assms(1) have "filter is_sleep (trace (udp_stream a (perf_counter ob) obs)) = []"
    by (rule udp_stream_no_sleep)
  with False show ?thesis by (simp add: session_def server_udp_session_def)
qed

lemma session_rest_suffix:
  "rest (session a ob obs) = Some obs' \<Longrightarrow> \<exists>pre. obs = pre @ obs'"
  by (auto simp: session_def server_udp_session_def server_tcp_session_rest_suffix
      udp_stream_rest_suffix split: if_splits)

lemma run_server_no_sleep:
  "interval a = 0 \<Longrightarrow> sorted (map perf_counter obs) \<Longrightarrow>
     filter is_sleep (fst (run_server a obs)) = []"
proof (induction a obs rule: run_server.induct)
  case (1 a)
  show ?case by simp
next
  case (2 a ob obs)
  show ?case
  proof (cases "is_set ob")
    case True
    then show ?thesis by simp
  next
    case False
    from "2.prems" have here: "filter is_sleep (trace (session a ob obs)) = []"
      by (rule session_no_sleep)
    show ?thesis
    proof (cases "rest (session a ob obs)")
      case None
      with False here show ?thesis by simp
    next
      case (Some obs')
      then obtain pre where "obs = pre @ obs'"
        using session_rest_suffix by blast
      with "2.prems"(2) have "sorted (map perf_counter obs')"
        by (simp add: sorted_append)
      with "2.IH" [OF False Some] "2.prems"(1)
      have "filter is_sleep (fst (run_server a obs')) = []" by simp
      with False Some here show ?thesis by (simp add: then_run_def)
    qed
  qed
qed

lemma interval_zero_rate: "speed a = 0 \<Longrightarrow> interval a = 0"
  by (simp add: interval_def bytes_per_sec_def)

text \<open>
  Claim C8. With a rate of zero the interval is zero, without any division, and no
  iteration of a send loop sleeps: the deadline stays at the clock reading it started
  with, and \<^verbatim>\<open>time.perf_counter()\<close>, a monotonic clock, never reads less than
  that. The clock readings are those of the observations, so "monotonic" is the
  hypothesis that they are sorted. It is stated for each send loop started at reading
  \<open>d\<close>, and for the whole of \<^verbatim>\<open>run_server\<close>.
\<close>

theorem zero_rate_never_sleeps:
  assumes "speed a = 0"
  shows "interval a = 0
     \<and> (sorted (d # map perf_counter obs) \<longrightarrow>
          filter is_sleep (trace (tcp_stream a d obs)) = []
        \<and> filter is_sleep (trace (udp_stream a d obs)) = [])
     \<and> (sorted (map perf_counter obs) \<longrightarrow> filter is_sleep (fst (run_server a obs)) = [])"
proof -
  have i: "interval a = 0" using assms by (rule interval_zero_rate)
  have "filter is_sleep (trace (tcp_stream a d obs)) = []
        \<and> filter is_sleep (trace (udp_stream a d obs)) = []"
    if "sorted (d # map perf_counter obs)"
  proof -
    from that have "\<forall>ob\<in>set obs. d \<le> perf_counter ob" by simp
    with i show ?thesis by (simp add: tcp_stream_no_sleep udp_stream_no_sleep)
  qed
  moreover have "filter is_sleep (fst (run_server a obs)) = []"
    if "sorted (map perf_counter obs)"
    using i that by (rule run_server_no_sleep)
  ultimately show ?thesis using i by blast
qed


theorem zero_rate_never_sleeps_witness:
  "speed (default_args\<lparr>speed := 0\<rparr>) = 0
   \<and> sorted (1 # map perf_counter steady)
   \<and> interval (default_args\<lparr>speed := 0\<rparr>) = 0
   \<and> filter is_sleep (trace (tcp_stream (default_args\<lparr>speed := 0\<rparr>) 1 steady)) = []
   \<and> filter is_sleep (trace (udp_stream (default_args\<lparr>speed := 0\<rparr>) 1 steady)) = []
   \<and> filter is_sleep (fst (run_server (default_args\<lparr>speed := 0\<rparr>) steady)) = []
   \<and> fst (run_server (default_args\<lparr>speed := 0\<rparr>) steady) =
       [Print (WaitingForTcp 5000), ListenSetTimeout 1, AcceptCall Accepted,
        Print ClientConnected, ConnSetTimeoutNone, SendAll 1400 Sent, SendAll 1400 Sent]"
  using zero_rate_never_sleeps [of "default_args\<lparr>speed := 0\<rparr>" 1 steady]
  by (simp add: default_args_def steady_def quiet_def session_def server_tcp_session_def
      pace_def interval_def bytes_per_sec_def data_len_def)

lemma stream_same_pacing:
  "interval a = interval b \<Longrightarrow> packet a = packet b \<Longrightarrow> target a = target b \<Longrightarrow>
   port a = port b \<Longrightarrow>
   tcp_stream a d obs = tcp_stream b d obs \<and> udp_stream a d obs = udp_stream b d obs"
  by (induction obs arbitrary: d)
    (auto simp: data_len_def dest_addr_def split: send_result.splits option.splits)

lemma interval_nonpositive_rate: "speed a \<le> 0 \<Longrightarrow> interval a = 0"
  by (simp add: interval_def bytes_per_sec_def mult_le_0_iff)

text \<open>
  Claim C10. A negative rate gives the interval zero, because the guard of the division
  is \<^verbatim>\<open>bytes_per_sec > 0\<close>, and the sender then behaves as with the rate zero: both
  send loops and the TCP session are equal to those of the same arguments with
  \<open>speed = 0\<close>; the UDP session differs only in its first console line, which prints
  the configured rate.
\<close>

theorem negative_rate_is_unthrottled:
  assumes "speed a < 0"
  shows "interval a = 0
     \<and> interval a = interval (a\<lparr>speed := 0\<rparr>)
     \<and> tcp_stream a d obs = tcp_stream (a\<lparr>speed := 0\<rparr>) d obs
     \<and> udp_stream a d obs = udp_stream (a\<lparr>speed := 0\<rparr>) d obs
     \<and> server_tcp_session a obs = server_tcp_session (a\<lparr>speed := 0\<rparr>) obs
     \<and> server_udp_session a d obs =
         emit [Print (UdpStart (addr_desc a) (speed a))] (udp_stream (a\<lparr>speed := 0\<rparr>) d obs)"
proof -
  from assms have i: "interval a = 0" by (simp add: interval_nonpositive_rate)
  have j: "interval (a\<lparr>speed := 0\<rparr>) = 0" by (simp add: interval_nonpositive_rate)
  have s: "tcp_stream a t os = tcp_stream (a\<lparr>speed := 0\<rparr>) t os
         \<and> udp_stream a t os = udp_stream (a\<lparr>speed := 0\<rparr>) t os" for t os
    by (rule stream_same_pacing) (simp_all add: i j)
  then have "server_tcp_session a obs = server_tcp_session (a\<lparr>speed := 0\<rparr>) obs"
    by (simp add: server_tcp_session_def)
  with i j s show ?thesis by (simp add: server_udp_session_def)
qed

theorem negative_rate_is_unthrottled_witness:
  "speed (default_args\<lparr>speed := - 5\<rparr>) < 0
   \<and> interval (default_args\<lparr>speed := - 5\<rparr>) = 0
   \<and> trace (tcp_stream (default_args\<lparr>speed := - 5\<rparr>) 1 steady) =
       [SendAll 1400 Sent, SendAll 1400 Sent, SendAll 1400 Sent, SendAll 1400 Sent]
   \<and> tcp_stream (default_args\<lparr>speed := - 5\<rparr>) 1 steady =
       tcp_stream (default_args\<lparr>speed := 0\<rparr>) 1 steady
   \<and> udp_stream (default_args\<lparr>speed := - 5\<rparr>) 1 steady =
       udp_stream (default_args\<lparr>speed := 0\<rparr>) 1 steady
   \<and> server_tcp_session (default_args\<lparr>speed := - 5\<rparr>) steady =
       server_tcp_session (default_args\<lparr>speed := 0\<rparr>) steady"
  using negative_rate_is_unthrottled [of "default_args\<lparr>speed := - 5\<rparr>" 1 steady]
  by (simp add: default_args_def steady_def quiet_def
      pace_def interval_def bytes_per_sec_def data_len_def emit_def)

section \<open>Properties of the server loop\<close>

lemma tcp_stream_append:
  "\<forall>ob\<in>set pre. \<not> is_set ob \<and> send ob = Sent \<Longrightarrow>
     tcp_stream a d (pre @ obs) =
       emit (trace (tcp_stream a d pre)) (tcp_stream a (d + of_nat (length pre) * interval a) obs)"
proof (induction pre arbitrary: d)
  case Nil
  show ?case by (simp add: emit_def)
next
  case (Cons ob pre)
  then have "tcp_stream a (d + interval a) (pre @ obs) =
      emit (trace (tcp_stream a (d + interval a) pre))
        (tcp_stream a (d + interval a + of_nat (length pre) * interval a) obs)"
    by simp
  with Cons.prems show ?case by (simp add: emit_def algebra_simps)
qed

lemma udp_stream_append:
  "\<forall>ob\<in>set pre. \<not> is_set ob \<and> send ob = Sent \<Longrightarrow>
     udp_stream a d (pre @ obs) =
       emit (trace (udp_stream a d pre)) (udp_stream a (d + of_nat (length pre) * interval a) obs)"
proof (induction pre arbitrary: d)
  case Nil
  show ?case by (simp add: emit_def)
next
  case (Cons ob pre)
  then have "udp_stream a (d + interval a) (pre @ obs) =
      emit (trace (udp_stream a (d + interval a) pre))
        (udp_stream a (d + interval a + of_nat (length pre) * interval a) obs)"
    by simp
  with Cons.prems show ?case by (simp add: emit_def algebra_simps)
qed

lemma run_server_next_session:
  "\<not> is_set ob \<Longrightarrow> rest (session a ob obs) = Some obs' \<Longrightarrow>
     run_server a (ob # obs) = then_run (trace (session a ob obs)) (run_server a obs')"
  by simp

lemma run_server_starts_session:
  "\<not> is_set ob \<Longrightarrow> \<exists>tail. fst (run_server a (ob # obs)) = trace (session a ob obs) @ tail"
  by (cases "rest (session a ob obs)") (simp_all add: then_run_def)

lemma tcp_stream_keeps_listening: "ListenClose \<notin> set (trace (tcp_stream a d obs))"
  by (induction obs arbitrary: d) (auto simp: pace_def split: send_result.splits)

lemma tcp_accept_keeps_listening: "ListenClose \<notin> set (fst (tcp_accept obs))"
  by (induction obs) (auto split: accept_result.splits prod.splits)

lemma server_tcp_session_keeps_listening:
  "ListenClose \<notin> set (trace (server_tcp_session a obs))"
proof -
  obtain es x where acc: "tcp_accept obs = (es, x)"
    by (cases "tcp_accept obs")
  with tcp_accept_keeps_listening [of obs] have "ListenClose \<notin> set es" by simp
  with acc tcp_stream_keeps_listening show ?thesis
    by (auto simp: server_tcp_session_def split: option.splits sum.splits)
qed

lemma run_server_never_raises: "snd (run_server a obs) \<noteq> Raised e"
proof (induction a obs rule: run_server.induct)
  case (1 a)
  show ?case by simp
next
  case (2 a ob obs)
  show ?case
  proof (cases "is_set ob")
    case True
    then show ?thesis by simp
  next
    case False
    show ?thesis
    proof (cases "rest (session a ob obs)")
      case None
      with False show ?thesis by simp
    next
      case (Some obs')
      with False "2.IH" [OF False Some] show ?thesis by (simp add: then_run_def)
    qed
  qed
qed

lemma run_server_returns_on_stop:
  "snd (run_server a obs) = Returned \<Longrightarrow> \<exists>ob\<in>set obs. is_set ob"
proof (induction a obs rule: run_server.induct)
  case (1 a)
  then show ?case by simp
next
  case (2 a ob obs)
  show ?case
  proof (cases "is_set ob")
    case True
    then show ?thesis by simp
  next
    case False
    show ?thesis
    proof (cases "rest (session a ob obs)")
      case None
      with False "2.prems" show ?thesis by simp
    next
      case (Some obs')
      with False "2.prems" have "snd (run_server a obs') = Returned"
        by (simp add: then_run_def)
      with "2.IH" [OF False Some] obtain x where x: "x \<in> set obs'" "is_set x" by blast
      from Some obtain pre where "obs = pre @ obs'"
        using session_rest_suffix by blast
      with x show ?thesis by auto
    qed
  qed
qed

text \<open>
  Claim C4. In a TCP session whose connection was accepted and whose \<^verbatim>\<open>sendall\<close>
  fails after any number of successful sends, the failure is caught: the connection is
  closed, the session returns, and the listening socket is never closed by a session. If
  the stop flag is clear, \<^verbatim>\<open>run_server\<close> starts the next session on the same
  listening socket, accepts the next client and streams to it. The server loop lets no
  error escape, and it returns only when the stop flag was set.
\<close>

theorem tcp_write_failure_returns_to_listening:
  assumes tcp: "proto a = Tcp"
    and head: "\<not> is_set ob0"
    and acc: "tcp_accept obs = (es, Some (Inr (t0, pre @ obf # ob1 # ob2 # obs2)))"
    and good: "\<forall>ob\<in>set pre. \<not> is_set ob \<and> send ob = Sent"
    and fail: "\<not> is_set obf" "send obf = SendFailed e"
    and again: "\<not> is_set ob1" "\<not> is_set ob2" "accept ob2 = Accepted"
  shows "server_tcp_session a obs =
          \<lparr>trace = [Print (WaitingForTcp (port a)), ListenSetTimeout 1] @ es @
             [ConnSetTimeoutNone] @ trace (tcp_stream a t0 pre) @
             pace (perf_counter obf) (t0 + of_nat (length pre) * interval a) @
             [SendAll (data_len a) (SendFailed e), Print ClientDisconnected, ConnClose,
              Print ReadyForNext],
           deadline = t0 + of_nat (length pre) * interval a,
           rest = Some (ob1 # ob2 # obs2)\<rparr>
       \<and> ListenClose \<notin> set (trace (server_tcp_session a obs))
       \<and> (\<exists>tail. fst (run_server a (ob0 # obs)) =
            trace (server_tcp_session a obs) @
            [Print (WaitingForTcp (port a)), ListenSetTimeout 1, AcceptCall Accepted,
             Print ClientConnected, ConnSetTimeoutNone] @
            trace (tcp_stream a (perf_counter ob2) obs2) @ tail)
       \<and> snd (run_server a (ob0 # obs)) \<noteq> Raised e'
       \<and> (snd (run_server a (ob0 # obs)) = Returned \<longrightarrow>
            (\<exists>ob\<in>set (ob0 # obs). is_set ob))"
proof -
  let ?d = "t0 + of_nat (length pre) * interval a"
  from fail have "tcp_stream a ?d (obf # ob1 # ob2 # obs2) =
      \<lparr>trace = pace (perf_counter obf) ?d @
         [SendAll (data_len a) (SendFailed e), Print ClientDisconnected, ConnClose,
          Print ReadyForNext],
       deadline = ?d, rest = Some (ob1 # ob2 # obs2)\<rparr>"
    by simp
  with good have stream: "tcp_stream a t0 (pre @ obf # ob1 # ob2 # obs2) =
      \<lparr>trace = trace (tcp_stream a t0 pre) @ pace (perf_counter obf) ?d @
         [SendAll (data_len a) (SendFailed e), Print ClientDisconnected, ConnClose,
          Print ReadyForNext],
       deadline = ?d, rest = Some (ob1 # ob2 # obs2)\<rparr>"
    by (simp add: tcp_stream_append emit_def)
  with acc have first: "server_tcp_session a obs =
          \<lparr>trace = [Print (WaitingForTcp (port a)), ListenSetTimeout 1] @ es @
             [ConnSetTimeoutNone] @ trace (tcp_stream a t0 pre) @
             pace (perf_counter obf) ?d @
             [SendAll (data_len a) (SendFailed e), Print ClientDisconnected, ConnClose,
              Print ReadyForNext],
           deadline = ?d, rest = Some (ob1 # ob2 # obs2)\<rparr>"
    by (simp add: server_tcp_session_def emit_def)
  then have r: "rest (session a ob0 obs) = Some (ob1 # ob2 # obs2)"
    using tcp by (simp add: session_def)
  from head r have run: "run_server a (ob0 # obs) =
      then_run (trace (session a ob0 obs)) (run_server a (ob1 # ob2 # obs2))"
    by (rule run_server_next_session)
  from again(1) obtain tail where
    tail: "fst (run_server a (ob1 # ob2 # obs2)) = trace (session a ob1 (ob2 # obs2)) @ tail"
    using run_server_starts_session by blast
  from again(2,3) tcp have second: "trace (session a ob1 (ob2 # obs2)) =
      [Print (WaitingForTcp (port a)), ListenSetTimeout 1, AcceptCall Accepted,
       Print ClientConnected, ConnSetTimeoutNone] @ trace (tcp_stream a (perf_counter ob2) obs2)"
    by (simp add: session_def server_tcp_session_def)
  from run tail second tcp have "fst (run_server a (ob0 # obs)) =
      trace (server_tcp_session a obs) @
      [Print (WaitingForTcp (port a)), ListenSetTimeout 1, AcceptCall Accepted,
       Print ClientConnected, ConnSetTimeoutNone] @
      trace (tcp_stream a (perf_counter ob2) obs2) @ tail"
    by (simp add: then_run_def session_def)
  then have "\<exists>tail. fst (run_server a (ob0 # obs)) =
      trace (server_tcp_session a obs) @
      [Print (WaitingForTcp (port a)), ListenSetTimeout 1, AcceptCall Accepted,
       Print ClientConnected, ConnSetTimeoutNone] @
      trace (tcp_stream a (perf_counter ob2) obs2) @ tail" ..
  moreover have "snd (run_server a (ob0 # obs)) \<noteq> Raised e'"
    by (rule run_server_never_raises)
  moreover have "snd (run_server a (ob0 # obs)) = Returned \<longrightarrow>
      (\<exists>ob\<in>set (ob0 # obs). is_set ob)"
    using run_server_returns_on_stop [of a "ob0 # obs"] by blast
  ultimately show ?thesis
    using first server_tcp_session_keeps_listening [of a obs] by blast
qed


theorem tcp_write_failure_returns_to_listening_witness:
  "proto default_args = Tcp \<and> \<not> is_set quiet
   \<and> tcp_accept two_clients =
       ([AcceptCall Accepted, Print ClientConnected],
        Some (Inr (1, [quiet\<lparr>perf_counter := 1\<rparr>] @ broken_pipe # quiet\<lparr>perf_counter := 3\<rparr> #
                       accepting\<lparr>perf_counter := 4\<rparr> # [quiet\<lparr>perf_counter := 4\<rparr>])))
   \<and> \<not> is_set (quiet\<lparr>perf_counter := 1\<rparr>) \<and> send (quiet\<lparr>perf_counter := 1\<rparr>) = Sent
   \<and> \<not> is_set broken_pipe \<and> send broken_pipe = SendFailed BrokenPipeError
   \<and> \<not> is_set (quiet\<lparr>perf_counter := 3\<rparr>) \<and> \<not> is_set (accepting\<lparr>perf_counter := 4\<rparr>)
   \<and> accept (accepting\<lparr>perf_counter := 4\<rparr>) = Accepted
   \<and> rest (server_tcp_session default_args two_clients) =
       Some [quiet\<lparr>perf_counter := 3\<rparr>, accepting\<lparr>perf_counter := 4\<rparr>, quiet\<lparr>perf_counter := 4\<rparr>]
   \<and> ListenClose \<notin> set (trace (server_tcp_session default_args two_clients))
   \<and> run_server default_args (quiet # two_clients) =
       ([Print (WaitingForTcp 5000), ListenSetTimeout 1, AcceptCall Accepted,
         Print ClientConnected, ConnSetTimeoutNone, SendAll 1400 Sent,
         SendAll 1400 (SendFailed BrokenPipeError), Print ClientDisconnected, ConnClose,
         Print ReadyForNext,
         Print (WaitingForTcp 5000), ListenSetTimeout 1, AcceptCall Accepted,
         Print ClientConnected, ConnSetTimeoutNone, SendAll 1400 Sent], Running)"
  using tcp_write_failure_returns_to_listening [of default_args quiet two_clients
      "[AcceptCall Accepted, Print ClientConnected]" 1 "[quiet\<lparr>perf_counter := 1\<rparr>]"
      broken_pipe "quiet\<lparr>perf_counter := 3\<rparr>" "accepting\<lparr>perf_counter := 4\<rparr>"
      "[quiet\<lparr>perf_counter := 4\<rparr>]" BrokenPipeError]
  by (simp add: default_args_def two_clients_def accepting_def broken_pipe_def quiet_def
      session_def server_tcp_session_def then_run_def pace_def interval_def bytes_per_sec_def
      data_len_def)


text \<open>
  Claim C5, as the code has it. A failed \<^verbatim>\<open>sendto\<close> ends the send loop and the
  session: the handler is outside the loop. The error is printed unless the stop flag is
  set, nothing is retried, and the observations that follow are handed back. If the stop
  flag is clear, \<^verbatim>\<open>run_server\<close> starts a new session with the same arguments, so
  with the same destination and interval, whose deadline starts at the clock reading of
  that moment.
\<close>

theorem udp_send_error_ends_session:
  assumes udp: "proto a = Udp"
    and head: "\<not> is_set ob0"
    and good: "\<forall>ob\<in>set pre. \<not> is_set ob \<and> send ob = Sent"
    and fail: "\<not> is_set obf" "send obf = SendFailed e"
    and again: "\<not> is_set ob1"
  shows "server_udp_session a t0 (pre @ obf # obs) =
          \<lparr>trace = [Print (UdpStart (addr_desc a) (speed a))] @ trace (udp_stream a t0 pre) @
             pace (perf_counter obf) (t0 + of_nat (length pre) * interval a) @
             [SendTo (data_len a) (dest_addr a) (SendFailed e)] @
             (if is_set_handler obf then [] else [Print (UdpSendError e)]),
           deadline = t0 + of_nat (length pre) * interval a,
           rest = Some obs\<rparr>
       \<and> (\<exists>tail. fst (run_server a (ob0 # pre @ obf # ob1 # obs)) =
            trace (server_udp_session a (perf_counter ob0) (pre @ obf # ob1 # obs)) @
            trace (server_udp_session a (perf_counter ob1) obs) @ tail)"
proof -
  have stream: "udp_stream a t (pre @ obf # os) =
      \<lparr>trace = trace (udp_stream a t pre) @
         pace (perf_counter obf) (t + of_nat (length pre) * interval a) @
         [SendTo (data_len a) (dest_addr a) (SendFailed e)] @
         (if is_set_handler obf then [] else [Print (UdpSendError e)]),
       deadline = t + of_nat (length pre) * interval a, rest = Some os\<rparr>" for t os
    using good fail by (simp add: udp_stream_append emit_def)
  then have first: "server_udp_session a t0 (pre @ obf # obs) =
          \<lparr>trace = [Print (UdpStart (addr_desc a) (speed a))] @ trace (udp_stream a t0 pre) @
             pace (perf_counter obf) (t0 + of_nat (length pre) * interval a) @
             [SendTo (data_len a) (dest_addr a) (SendFailed e)] @
             (if is_set_handler obf then [] else [Print (UdpSendError e)]),
           deadline = t0 + of_nat (length pre) * interval a,
           rest = Some obs\<rparr>"
    by (simp add: server_udp_session_def emit_def)
  from udp have s: "session a ob os = server_udp_session a (perf_counter ob) os" for ob os
    by (simp add: session_def)
  from stream have "rest (session a ob0 (pre @ obf # ob1 # obs)) = Some (ob1 # obs)"
    by (simp add: s server_udp_session_def)
  with head have run: "run_server a (ob0 # pre @ obf # ob1 # obs) =
      then_run (trace (session a ob0 (pre @ obf # ob1 # obs))) (run_server a (ob1 # obs))"
    by (rule run_server_next_session)
  from again obtain tail where
    "fst (run_server a (ob1 # obs)) = trace (session a ob1 obs) @ tail"
    using run_server_starts_session by blast
  with run have "fst (run_server a (ob0 # pre @ obf # ob1 # obs)) =
      trace (server_udp_session a (perf_counter ob0) (pre @ obf # ob1 # obs)) @
      trace (server_udp_session a (perf_counter ob1) obs) @ tail"
    by (simp add: then_run_def s)
  then have "\<exists>tail. fst (run_server a (ob0 # pre @ obf # ob1 # obs)) =
      trace (server_udp_session a (perf_counter ob0) (pre @ obf # ob1 # obs)) @
      trace (server_udp_session a (perf_counter ob1) obs) @ tail" ..
  with first show ?thesis by blast
qed

theorem udp_send_error_ends_session_witness:
  "proto udp_args = Udp \<and> \<not> is_set quiet
   \<and> \<not> is_set quiet \<and> send quiet = Sent
   \<and> \<not> is_set send_error \<and> send send_error = SendFailed OtherOSError
   \<and> \<not> is_set (quiet\<lparr>perf_counter := 5\<rparr>)
   \<and> server_udp_session udp_args 0 ([quiet] @ send_error # [quiet\<lparr>perf_counter := 5\<rparr>]) =
       \<lparr>trace = [Print (UdpStart ''broadcast (255.255.255.255)'' 10),
                 SendTo 1400 (''255.255.255.255'', 5000) Sent,
                 SendTo 1400 (''255.255.255.255'', 5000) (SendFailed OtherOSError),
                 Print (UdpSendError OtherOSError)],
        deadline = 7 / 6250, rest = Some [quiet\<lparr>perf_counter := 5\<rparr>]\<rparr>
   \<and> run_server udp_args
        (quiet # [quiet] @ send_error # quiet\<lparr>perf_counter := 5\<rparr> # [quiet\<lparr>perf_counter := 5\<rparr>]) =
       ([Print (UdpStart ''broadcast (255.255.255.255)'' 10),
         SendTo 1400 (''255.255.255.255'', 5000) Sent,
         SendTo 1400 (''255.255.255.255'', 5000) (SendFailed OtherOSError),
         Print (UdpSendError OtherOSError),
         Print (UdpStart ''broadcast (255.255.255.255)'' 10),
         SendTo 1400 (''255.255.255.255'', 5000) Sent], Running)"
  using udp_send_error_ends_session [of udp_args quiet "[quiet]" send_error OtherOSError
      "quiet\<lparr>perf_counter := 5\<rparr>" 0 "[quiet\<lparr>perf_counter := 5\<rparr>]"]
  by (simp add: udp_args_def default_args_def send_error_def quiet_def
      session_def server_udp_session_def then_run_def pace_def interval_def bytes_per_sec_def
      data_len_def dest_addr_def addr_desc_def)

text \<open>
  Claim C5 as stated fails: after the failed send the loop does not go on with the next
  packet under the deadline it had. The session ends, and the run shows a second
  session (its banner is printed again) whose deadline starts at 5, so the send at clock
  reading 5.0005 sleeps, which it would not under the old deadline 0.00112.
\<close>

theorem udp_send_error_counterexample:
  "udp_stream udp_args (7 / 6250) [send_error, quiet\<lparr>perf_counter := 5\<rparr>] \<noteq>
     emit [SendTo 1400 (''255.255.255.255'', 5000) (SendFailed OtherOSError),
           Print (UdpSendError OtherOSError)]
       (udp_stream udp_args (7 / 6250) [quiet\<lparr>perf_counter := 5\<rparr>])
   \<and> udp_stream udp_args (7 / 6250) [send_error, quiet\<lparr>perf_counter := 5\<rparr>] =
     \<lparr>trace = [SendTo 1400 (''255.255.255.255'', 5000) (SendFailed OtherOSError),
               Print (UdpSendError OtherOSError)],
      deadline = 7 / 6250, rest = Some [quiet\<lparr>perf_counter := 5\<rparr>]\<rparr>
   \<and> run_server udp_args (quiet # flaky) =
       ([Print (UdpStart ''broadcast (255.255.255.255)'' 10),
         SendTo 1400 (''255.255.255.255'', 5000) Sent,
         SendTo 1400 (''255.255.255.255'', 5000) (SendFailed OtherOSError),
         Print (UdpSendError OtherOSError),
         Print (UdpStart ''broadcast (255.255.255.255)'' 10),
         SendTo 1400 (''255.255.255.255'', 5000) Sent,
         Sleep (31 / 50000),
         SendTo 1400 (''255.255.255.255'', 5000) Sent], Running)"
  by (simp add: udp_args_def default_args_def flaky_def send_error_def quiet_def
      session_def server_udp_session_def then_run_def pace_def interval_def bytes_per_sec_def
      data_len_def dest_addr_def addr_desc_def emit_def)

section \<open>Properties of the receiver\<close>

lemma on_receive_start_time [simp]: "start_time (snd (on_receive s n now)) = start_time s"
  by (simp add: on_receive_def Let_def)

lemma on_receive_no_final [simp]: "filter is_final (fst (on_receive s n now)) = []"
  by (simp add: on_receive_def Let_def)

lemma fst_emitting [simp]: "fst (emitting es r) = es @ fst r"
  by (simp add: emitting_def)

lemma snd_emitting [simp]: "snd (emitting es r) = snd r"
  by (simp add: emitting_def)

lemma tcp_measure_no_final: "filter is_final (fst (tcp_measure a s obs)) = []"
proof (induction obs arbitrary: s)
  case Nil
  show ?case by simp
next
  case (Cons ob obs)
  show ?case
  proof (cases "recv ob")
    case (Data n)
    obtain out s' where r: "on_receive s n (time_now ob) = (out, s')"
      by (cases "on_receive s n (time_now ob)")
    with on_receive_no_final [of s n "time_now ob"] have "filter is_final out = []" by simp
    with Data r Cons.IH [of s'] show ?thesis by simp
  next
    case RecvTimeout
    with Cons.IH [of s] show ?thesis by simp
  next
    case (RecvFailed e)
    then show ?thesis by simp
  qed
qed

lemma udp_measure_no_final: "filter is_final (fst (udp_measure a s obs)) = []"
proof (induction obs arbitrary: s)
  case Nil
  show ?case by simp
next
  case (Cons ob obs)
  show ?case
  proof (cases "recv ob")
    case (Data n)
    obtain out s' where r: "on_receive s n (time_now ob) = (out, s')"
      by (cases "on_receive s n (time_now ob)")
    with on_receive_no_final [of s n "time_now ob"] have "filter is_final out = []" by simp
    with Data r Cons.IH [of s'] show ?thesis by simp
  next
    case RecvTimeout
    with Cons.IH [of s] show ?thesis by simp
  next
    case (RecvFailed e)
    then show ?thesis by simp
  qed
qed

lemma tcp_measure_start_time: "start_time (fst (snd (tcp_measure a s obs))) = start_time s"
proof (induction obs arbitrary: s)
  case Nil
  show ?case by simp
next
  case (Cons ob obs)
  show ?case
  proof (cases "recv ob")
    case (Data n)
    obtain out s' where r: "on_receive s n (time_now ob) = (out, s')"
      by (cases "on_receive s n (time_now ob)")
    with on_receive_start_time [of s n "time_now ob"] have "start_time s' = start_time s" by simp
    with Data r Cons.IH [of s'] show ?thesis by simp
  next
    case RecvTimeout
    with Cons.IH [of s] show ?thesis by simp
  next
    case (RecvFailed e)
    then show ?thesis by simp
  qed
qed

lemma udp_measure_start_time: "start_time (fst (snd (udp_measure a s obs))) = start_time s"
proof (induction obs arbitrary: s)
  case Nil
  show ?case by simp
next
  case (Cons ob obs)
  show ?case
  proof (cases "recv ob")
    case (Data n)
    obtain out s' where r: "on_receive s n (time_now ob) = (out, s')"
      by (cases "on_receive s n (time_now ob)")
    with on_receive_start_time [of s n "time_now ob"] have "start_time s' = start_time s" by simp
    with Data r Cons.IH [of s'] show ?thesis by simp
  next
    case RecvTimeout
    with Cons.IH [of s] show ?thesis by simp
  next
    case (RecvFailed e)
    then show ?thesis by simp
  qed
qed

lemma final_report_empty: "now - started \<le> 0 \<Longrightarrow> final_report n started now = []"
  by (simp add: final_report_def)

lemma finish_no_final:
  assumes "filter is_final pre = []" and "filter is_final (fst r) = []"
    and "t_end - start_time (fst (snd r)) \<le> 0"
  shows "filter is_final (fst (finish pre r t_end)) = []"
proof -
  obtain es s oc where r: "r = (es, s, oc)" by (cases r)
  with assms show ?thesis by (simp add: finish_def final_report_empty)
qed

lemma client_tcp_no_final:
  assumes "t_final env - t_start env \<le> 0"
  shows "filter is_final (fst (client_tcp a env)) = []"
proof (cases "connect env")
  case (ConnectFailed e)
  then show ?thesis by (simp add: client_tcp_def)
next
  case Connected
  show ?thesis
  proof (cases "first env")
    case (Data n)
    show ?thesis
    proof (cases "n = 0")
      case True
      with Connected Data show ?thesis by (simp add: client_tcp_def)
    next
      case False
      with Connected Data assms show ?thesis
        by (simp add: client_tcp_def finish_no_final tcp_measure_no_final
            tcp_measure_start_time)
    qed
  next
    case RecvTimeout
    with Connected show ?thesis by (simp add: client_tcp_def)
  next
    case (RecvFailed e)
    with Connected show ?thesis by (simp add: client_tcp_def)
  qed
qed

lemma client_udp_no_final:
  assumes "t_final env - t_start env \<le> 0"
  shows "filter is_final (fst (client_udp a env)) = []"
proof (cases "first env")
  case (Data n)
  with assms show ?thesis
    by (simp add: client_udp_def finish_no_final udp_measure_no_final udp_measure_start_time)
next
  case RecvTimeout
  then show ?thesis by (simp add: client_udp_def)
next
  case (RecvFailed e)
  then show ?thesis by (simp add: client_udp_def)
qed

lemma final_report_is_final [simp]:
  "filter is_final (final_report n started now) = final_report n started now"
  by (simp add: final_report_def Let_def)

lemma finish_final:
  assumes "filter is_final pre = []" and "r = (es, s, oc)" and "filter is_final es = []"
    and "oc \<noteq> Running"
  shows "filter is_final (fst (finish pre r t_end)) =
           final_report (total_bytes s) (start_time s) t_end"
  using assms by (simp add: finish_def)

lemma client_tcp_final:
  assumes "connect env = Connected" and "first env = Data n" and "0 < n"
    and run: "tcp_measure a
       \<lparr>total_bytes = n, start_time = t_start env, last_report_time = t_start env,
        last_bytes = n\<rparr> (ticks env) = (es, s, oc)"
    and "oc \<noteq> Running"
  shows "filter is_final (fst (client_tcp a env)) =
           final_report (total_bytes s) (t_start env) (t_final env)"
proof -
  from run tcp_measure_no_final [of a _ "ticks env"] have es: "filter is_final es = []"
    by (metis fst_conv)
  from run tcp_measure_start_time [of a _ "ticks env"] have "start_time s = t_start env"
    by (metis fst_conv snd_conv sampler.select_convs(2))
  with assms es show ?thesis
    by (simp add: client_tcp_def finish_def)
qed

lemma client_udp_final:
  assumes "first env = Data n"
    and run: "udp_measure a
       \<lparr>total_bytes = n, start_time = t_start env, last_report_time = t_start env,
        last_bytes = n\<rparr> (ticks env) = (es, s, oc)"
    and "oc \<noteq> Running"
  shows "filter is_final (fst (client_udp a env)) =
           final_report (total_bytes s) (t_start env) (t_final env)"
proof -
  from run udp_measure_no_final [of a _ "ticks env"] have es: "filter is_final es = []"
    by (metis fst_conv)
  from run udp_measure_start_time [of a _ "ticks env"] have "start_time s = t_start env"
    by (metis fst_conv snd_conv sampler.select_convs(2))
  with assms es show ?thesis
    by (simp add: client_udp_def finish_def)
qed

lemma mega_cancel: "x / 1000000 * 1000000 = (x::rat)"
  by simp

text \<open>
  Claim C2, as the code has it. When time has passed since the start, the final report
  gives the average \<open>total_bytes * 8 / elapsed\<close> (printed in Mbit/s, so the value
  printed times \<open>10\<^sup>6\<close> is the average in bit/s). When the elapsed time is zero or
  negative there is no division and no final report at all. In a client session whose
  receive loop has ended, the final reports in the trace are exactly this report for
  the bytes counted in the session, the start time of the measurement and the clock
  read at the end; with no elapsed time, no trace of \<^verbatim>\<open>client_tcp\<close> or
  \<^verbatim>\<open>client_udp\<close> holds a final report.
\<close>

theorem final_average_only_after_elapsed_time:
  "(0 < now - started \<longrightarrow>
      (\<exists>avg. final_report n started now = [Print (FinalAverage avg (now - started) n)]
         \<and> avg * 1000000 = of_nat n * 8 / (now - started)))
   \<and> (now - started \<le> 0 \<longrightarrow> final_report n started now = [])
   \<and> (connect env = Connected \<and> first env = Data k \<and> 0 < k
        \<and> tcp_measure a
             \<lparr>total_bytes = k, start_time = t_start env, last_report_time = t_start env,
              last_bytes = k\<rparr> (ticks env) = (es, s, oc)
        \<and> oc \<noteq> Running \<longrightarrow>
        filter is_final (fst (client_tcp a env)) =
          final_report (total_bytes s) (t_start env) (t_final env))
   \<and> (first env = Data k
        \<and> udp_measure a
             \<lparr>total_bytes = k, start_time = t_start env, last_report_time = t_start env,
              last_bytes = k\<rparr> (ticks env) = (es', s', oc')
        \<and> oc' \<noteq> Running \<longrightarrow>
        filter is_final (fst (client_udp a env)) =
          final_report (total_bytes s') (t_start env) (t_final env))
   \<and> (t_final env - t_start env \<le> 0 \<longrightarrow>
        filter is_final (fst (client_tcp a env)) = []
      \<and> filter is_final (fst (client_udp a env)) = [])"
proof -
  have "\<exists>avg. final_report n started now = [Print (FinalAverage avg (now - started) n)]
         \<and> avg * 1000000 = of_nat n * 8 / (now - started)"
    if "0 < now - started"
  proof -
    let ?avg = "of_nat n * 8 / (now - started) / 1000000"
    from that have "final_report n started now = [Print (FinalAverage ?avg (now - started) n)]"
      by (simp add: final_report_def)
    moreover have "?avg * 1000000 = of_nat n * 8 / (now - started)"
      by (rule mega_cancel)
    ultimately show ?thesis by blast
  qed
  moreover have "final_report n started now = []" if "now - started \<le> 0"
    using that by (rule final_report_empty)
  moreover have "filter is_final (fst (client_tcp a env)) = []
      \<and> filter is_final (fst (client_udp a env)) = []"
    if "t_final env - t_start env \<le> 0"
    using that by (simp add: client_tcp_no_final client_udp_no_final)
  ultimately show ?thesis
    using client_tcp_final [of env k a es s oc] client_udp_final [of env k a es' s' oc']
    by blast
qed

theorem final_average_only_after_elapsed_time_witness:
  "0 < (2::rat) - 0
   \<and> final_report 250000 0 2 = [Print (FinalAverage 1 2 250000)]
   \<and> (5::rat) - 5 \<le> 0
   \<and> final_report 1400 5 5 = []
   \<and> connect busy_env = Connected \<and> first busy_env = Data 1400 \<and> (0::nat) < 1400
   \<and> snd (tcp_measure default_args fresh (ticks busy_env)) =
       (\<lparr>total_bytes = 7000, start_time = 0, last_report_time = 5 / 2, last_bytes = 7000\<rparr>,
        Returned)
   \<and> snd (udp_measure default_args fresh (ticks busy_env)) =
       (\<lparr>total_bytes = 7000, start_time = 0, last_report_time = 5 / 2, last_bytes = 7000\<rparr>,
        Returned)
   \<and> Returned \<noteq> Running
   \<and> filter is_final (fst (client_tcp default_args busy_env)) =
       [Print (FinalAverage (7 / 375) 3 7000)]
   \<and> filter is_final (fst (client_udp default_args busy_env)) =
       [Print (FinalAverage (7 / 375) 3 7000)]
   \<and> t_final instant_env - t_start instant_env \<le> 0
   \<and> filter is_final (fst (client_tcp default_args instant_env)) = []
   \<and> filter is_final (fst (client_udp default_args instant_env)) = []"
  using final_average_only_after_elapsed_time [where now = 2 and started = 0 and n = 250000
      and env = busy_env and k = 1400 and a = default_args
      and es = "fst (tcp_measure default_args fresh (ticks busy_env))"
      and s = "\<lparr>total_bytes = 7000, start_time = 0, last_report_time = 5 / 2, last_bytes = 7000\<rparr>"
      and oc = Returned
      and es' = "fst (udp_measure default_args fresh (ticks busy_env))"
      and s' = "\<lparr>total_bytes = 7000, start_time = 0, last_report_time = 5 / 2, last_bytes = 7000\<rparr>"
      and oc' = Returned]
    final_average_only_after_elapsed_time [where now = 5 and started = 5 and n = 1400
      and env = instant_env and a = default_args]
  by (simp add: instant_env_def busy_env_def fresh_def quiet_def default_args_def
      final_report_def on_receive_def emitting_def)

text \<open>
  Claim C2 as stated fails: in a session that ends in the instant it starts, no average
  of 0 is reported. The trace ends with the closing of the socket and holds no final
  report.
\<close>

theorem zero_elapsed_counterexample:
  "t_final instant_env - t_start instant_env \<le> 0
   \<and> client_tcp default_args instant_env =
       ([ConnectCall Connected, Print TcpConnected, Print ConnectLatency, SockSetTimeout 5,
         Recv (Data 1400), Print FirstPacketLatency,
         SockSetTimeout (1 / 10), Recv (Data 0), Print ServerClosed, SockClose], Returned)
   \<and> Print (FinalAverage 0 0 1400) \<notin> set (fst (client_tcp default_args instant_env))"
  by (simp add: instant_env_def quiet_def client_tcp_def finish_def final_report_def)

text \<open>
  Claim C6. When the first receive times out, the TCP client (once connected) and the
  UDP client print that no traffic came, close the socket and return; the whole trace
  is given, and it holds neither a sample nor a final report.
\<close>

theorem first_packet_timeout_no_statistics:
  assumes "connect env = Connected" and "first env = RecvTimeout"
  shows "client_tcp a env =
           ([ConnectCall Connected, Print TcpConnected, Print ConnectLatency,
             SockSetTimeout 5, Recv RecvTimeout, Print FirstPacketTimeout, SockClose],
            Returned)
       \<and> client_udp a env =
           ([SockSetTimeout 5, Print (WaitingForUdp (port a)), Recv RecvTimeout,
             Print NoTraffic, SockClose], Returned)"
  using assms by (simp add: client_tcp_def client_udp_def)

theorem first_packet_timeout_no_statistics_witness:
  "connect silent_env = Connected \<and> first silent_env = RecvTimeout
   \<and> client_tcp default_args silent_env =
           ([ConnectCall Connected, Print TcpConnected, Print ConnectLatency,
             SockSetTimeout 5, Recv RecvTimeout, Print FirstPacketTimeout, SockClose],
            Returned)
   \<and> client_udp default_args silent_env =
           ([SockSetTimeout 5, Print (WaitingForUdp 5000), Recv RecvTimeout,
             Print NoTraffic, SockClose], Returned)"
  using first_packet_timeout_no_statistics [of silent_env default_args]
  by (simp add: silent_env_def default_args_def)

text \<open>
  Claim C9, on the code: a connection reset in the Measuring loop of \<^verbatim>\<open>client_tcp\<close>.
  The \<^verbatim>\<open>finally\<close> clause prints the final report and closes the socket, but no
  handler catches the error (the loop catches \<^verbatim>\<open>socket.timeout\<close> only): it leaves
  \<^verbatim>\<open>client_tcp\<close>, and \<^verbatim>\<open>main\<close> catches \<^verbatim>\<open>KeyboardInterrupt\<close> only.
\<close>

theorem tcp_receive_error_escapes:
  "client_tcp default_args reset_env =
     ([ConnectCall Connected, Print TcpConnected, Print ConnectLatency, SockSetTimeout 5,
       Recv (Data 1400), Print FirstPacketLatency,
       SockSetTimeout (1 / 10), Recv (Data 1400),
       SockSetTimeout (1 / 10), Recv (RecvFailed ConnectionResetError),
       Print (FinalAverage (112 / 5000) 1 2800), SockClose],
      Raised ConnectionResetError)"
  by (simp add: reset_env_def quiet_def default_args_def client_tcp_def finish_def
      final_report_def on_receive_def emitting_def)








lemma receives_on_receive [simp]: "receives (fst (on_receive s n now)) = 0"
  by (simp add: on_receive_def Let_def receives_def)

lemma receives_append [simp]: "receives (es @ es') = receives es + receives es'"
  by (simp add: receives_def)

lemma tcp_measure_goes_on:
  assumes "\<not> tcp_ends a (start_time s) ob"
  shows "\<exists>es s'. start_time s' = start_time s \<and> receives es = 1
           \<and> (\<forall>obs. tcp_measure a s (ob # obs) = emitting es (tcp_measure a s' obs))"
proof (cases "recv ob")
  case (Data n)
  obtain out s' where r: "on_receive s n (time_now ob) = (out, s')"
    by (cases "on_receive s n (time_now ob)")
  with on_receive_start_time [of s n "time_now ob"] receives_on_receive [of s n "time_now ob"]
  have s': "start_time s' = start_time s" and out: "receives out = 0" by simp_all
  let ?es = "[SockSetTimeout (1 / 10), Recv (Data n)] @ out"
  from assms Data r s' have "\<forall>obs. tcp_measure a s (ob # obs) = emitting ?es (tcp_measure a s' obs)"
    by (simp add: tcp_ends_def)
  moreover from out have "receives ?es = 1" by (simp add: receives_def)
  ultimately show ?thesis using s' by blast
next
  case RecvTimeout
  let ?es = "[SockSetTimeout (1 / 10), Recv RecvTimeout]"
  from assms RecvTimeout
  have "\<forall>obs. tcp_measure a s (ob # obs) = emitting ?es (tcp_measure a s obs)"
    by (simp add: tcp_ends_def)
  moreover have "receives ?es = 1" by (simp add: receives_def)
  ultimately show ?thesis by blast
next
  case (RecvFailed e)
  with assms show ?thesis by (simp add: tcp_ends_def)
qed

lemma tcp_measure_stops:
  assumes "tcp_ends a (start_time s) ob"
  shows "\<exists>es s' oc. oc \<noteq> Running \<and> receives es = (if is_set ob then 0 else 1)
           \<and> (\<forall>obs. tcp_measure a s (ob # obs) = (es, s', oc))"
proof (cases "is_set ob")
  case True
  then have "\<forall>obs. tcp_measure a s (ob # obs) = ([], s, Returned)" by simp
  with True show ?thesis by (auto simp: receives_def)
next
  case False
  show ?thesis
  proof (cases "recv ob")
    case (Data n)
    obtain out s' where r: "on_receive s n (time_now ob) = (out, s')"
      by (cases "on_receive s n (time_now ob)")
    with on_receive_start_time [of s n "time_now ob"] receives_on_receive [of s n "time_now ob"]
    have s': "start_time s' = start_time s" and out: "receives out = 0" by simp_all
    show ?thesis
    proof (cases "n = 0")
      case True
      with False Data have "\<forall>obs. tcp_measure a s (ob # obs) =
          ([SockSetTimeout (1 / 10), Recv (Data n), Print ServerClosed], s, Returned)"
        by simp
      moreover have "receives [SockSetTimeout (1 / 10), Recv (Data n), Print ServerClosed] = 1"
        by (simp add: receives_def)
      ultimately show ?thesis using False by auto
    next
      case nz: False
      with assms False Data r s' have "\<forall>obs. tcp_measure a s (ob # obs) =
          ([SockSetTimeout (1 / 10), Recv (Data n)] @ out, s', Returned)"
        by (simp add: tcp_ends_def)
      moreover from out have "receives ([SockSetTimeout (1 / 10), Recv (Data n)] @ out) = 1"
        by (simp add: receives_def)
      ultimately show ?thesis using False by auto
    qed
  next
    case RecvTimeout
    with assms False show ?thesis by (simp add: tcp_ends_def)
  next
    case (RecvFailed e)
    with False have "\<forall>obs. tcp_measure a s (ob # obs) =
        ([SockSetTimeout (1 / 10), Recv (RecvFailed e)], s, Raised e)"
      by simp
    moreover have "receives [SockSetTimeout (1 / 10), Recv (RecvFailed e)] = 1"
      by (simp add: receives_def)
    ultimately show ?thesis using False by auto
  qed
qed

lemma tcp_measure_running:
  "snd (snd (tcp_measure a s obs)) = Running \<longleftrightarrow> (\<forall>ob\<in>set obs. \<not> tcp_ends a (start_time s) ob)"
proof (induction obs arbitrary: s)
  case Nil
  show ?case by simp
next
  case (Cons ob obs)
  show ?case
  proof (cases "tcp_ends a (start_time s) ob")
    case True
    from tcp_measure_stops [OF True] obtain es s' oc where
      "oc \<noteq> Running" and "tcp_measure a s (ob # obs) = (es, s', oc)" by blast
    with True show ?thesis by simp
  next
    case False
    from tcp_measure_goes_on [OF False] obtain es s' where
      "start_time s' = start_time s"
      and "tcp_measure a s (ob # obs) = emitting es (tcp_measure a s' obs)" by blast
    with False Cons.IH [of s'] show ?thesis by simp
  qed
qed

lemma tcp_measure_first_exit:
  assumes "\<forall>x\<in>set pre. \<not> tcp_ends a (start_time s) x" and "tcp_ends a (start_time s) ob"
  shows "tcp_measure a s (pre @ ob # post) = tcp_measure a s (pre @ [ob])
       \<and> receives (fst (tcp_measure a s (pre @ [ob]))) =
           length pre + (if is_set ob then 0 else 1)"
  using assms
proof (induction pre arbitrary: s)
  case Nil
  from tcp_measure_stops [OF Nil.prems(2)] obtain es s' oc where
    "receives es = (if is_set ob then 0 else 1)"
    and "\<forall>obs. tcp_measure a s (ob # obs) = (es, s', oc)" by blast
  then show ?case by simp
next
  case (Cons x pre)
  from Cons.prems(1) have "\<not> tcp_ends a (start_time s) x" by simp
  from tcp_measure_goes_on [OF this] obtain es s' where
    s': "start_time s' = start_time s" and es: "receives es = 1"
    and step: "\<forall>obs. tcp_measure a s (x # obs) = emitting es (tcp_measure a s' obs)" by blast
  from Cons.prems s' have "\<forall>x\<in>set pre. \<not> tcp_ends a (start_time s') x"
    and "tcp_ends a (start_time s') ob" by simp_all
  from Cons.IH [OF this] step es show ?case by simp
qed


lemma udp_measure_goes_on:
  assumes "\<not> udp_ends a (start_time s) ob"
  shows "\<exists>es s'. start_time s' = start_time s \<and> receives es = 1
           \<and> (\<forall>obs. udp_measure a s (ob # obs) = emitting es (udp_measure a s' obs))"
proof (cases "recv ob")
  case (Data n)
  obtain out s' where r: "on_receive s n (time_now ob) = (out, s')"
    by (cases "on_receive s n (time_now ob)")
  with on_receive_start_time [of s n "time_now ob"] receives_on_receive [of s n "time_now ob"]
  have s': "start_time s' = start_time s" and out: "receives out = 0" by simp_all
  let ?es = "Recv (Data n) # out"
  from assms Data r s' have "\<forall>obs. udp_measure a s (ob # obs) = emitting ?es (udp_measure a s' obs)"
    by (simp add: udp_ends_def)
  moreover from out have "receives ?es = 1" by (simp add: receives_def)
  ultimately show ?thesis using s' by blast
next
  case RecvTimeout
  from assms RecvTimeout
  have "\<forall>obs. udp_measure a s (ob # obs) = emitting [Recv RecvTimeout] (udp_measure a s obs)"
    by (simp add: udp_ends_def)
  moreover have "receives [Recv RecvTimeout] = 1" by (simp add: receives_def)
  ultimately show ?thesis by blast
next
  case (RecvFailed e)
  with assms show ?thesis by (simp add: udp_ends_def)
qed

lemma udp_measure_stops:
  assumes "udp_ends a (start_time s) ob"
  shows "\<exists>es s' oc. oc \<noteq> Running \<and> receives es = (if is_set ob then 0 else 1)
           \<and> (\<forall>obs. udp_measure a s (ob # obs) = (es, s', oc))"
proof (cases "is_set ob")
  case True
  then have "\<forall>obs. udp_measure a s (ob # obs) = ([], s, Returned)" by simp
  with True show ?thesis by (auto simp: receives_def)
next
  case False
  show ?thesis
  proof (cases "recv ob")
    case (Data n)
    obtain out s' where r: "on_receive s n (time_now ob) = (out, s')"
      by (cases "on_receive s n (time_now ob)")
    with on_receive_start_time [of s n "time_now ob"] receives_on_receive [of s n "time_now ob"]
    have s': "start_time s' = start_time s" and out: "receives out = 0" by simp_all
    from assms False Data r s' have "\<forall>obs. udp_measure a s (ob # obs) =
        (Recv (Data n) # out, s', Returned)"
      by (simp add: udp_ends_def)
    moreover from out have "receives (Recv (Data n) # out) = 1"
      by (simp add: receives_def)
    ultimately show ?thesis using False by auto
  next
    case RecvTimeout
    with assms False show ?thesis by (simp add: udp_ends_def)
  next
    case (RecvFailed e)
    with False have "\<forall>obs. udp_measure a s (ob # obs) = ([Recv (RecvFailed e)], s, Raised e)"
      by simp
    moreover have "receives [Recv (RecvFailed e)] = 1"
      by (simp add: receives_def)
    ultimately show ?thesis using False by auto
  qed
qed

lemma udp_measure_running:
  "snd (snd (udp_measure a s obs)) = Running \<longleftrightarrow> (\<forall>ob\<in>set obs. \<not> udp_ends a (start_time s) ob)"
proof (induction obs arbitrary: s)
  case Nil
  show ?case by simp
next
  case (Cons ob obs)
  show ?case
  proof (cases "udp_ends a (start_time s) ob")
    case True
    from udp_measure_stops [OF True] obtain es s' oc where
      "oc \<noteq> Running" and "udp_measure a s (ob # obs) = (es, s', oc)" by blast
    with True show ?thesis by simp
  next
    case False
    from udp_measure_goes_on [OF False] obtain es s' where
      "start_time s' = start_time s"
      and "udp_measure a s (ob # obs) = emitting es (udp_measure a s' obs)" by blast
    with False Cons.IH [of s'] show ?thesis by simp
  qed
qed

lemma udp_measure_first_exit:
  assumes "\<forall>x\<in>set pre. \<not> udp_ends a (start_time s) x" and "udp_ends a (start_time s) ob"
  shows "udp_measure a s (pre @ ob # post) = udp_measure a s (pre @ [ob])
       \<and> receives (fst (udp_measure a s (pre @ [ob]))) =
           length pre + (if is_set ob then 0 else 1)"
  using assms
proof (induction pre arbitrary: s)
  case Nil
  from udp_measure_stops [OF Nil.prems(2)] obtain es s' oc where
    "receives es = (if is_set ob then 0 else 1)"
    and "\<forall>obs. udp_measure a s (ob # obs) = (es, s', oc)" by blast
  then show ?case by simp
next
  case (Cons x pre)
  from Cons.prems(1) have "\<not> udp_ends a (start_time s) x" by simp
  from udp_measure_goes_on [OF this] obtain es s' where
    s': "start_time s' = start_time s" and es: "receives es = 1"
    and step: "\<forall>obs. udp_measure a s (x # obs) = emitting es (udp_measure a s' obs)" by blast
  from Cons.prems s' have "\<forall>x\<in>set pre. \<not> udp_ends a (start_time s') x"
    and "udp_ends a (start_time s') ob" by simp_all
  from Cons.IH [OF this] step es show ?case by simp
qed













lemma sample_times_append [simp]: "sample_times (es @ es') = sample_times es @ sample_times es'"
  by (induction es rule: sample_times.induct) simp_all

lemma on_receive_spaced:
  assumes "on_receive s n now = (out, s')"
    and "spaced (last_report_time s' - start_time s') ts"
  shows "spaced (last_report_time s - start_time s) (sample_times out @ ts)"
proof (cases "1 \<le> now - last_report_time s")
  case True
  with assms show ?thesis by (auto simp: on_receive_def Let_def)
next
  case False
  with assms show ?thesis by (auto simp: on_receive_def Let_def)
qed

lemma tcp_measure_spaced:
  "spaced (last_report_time s - start_time s) (sample_times (fst (tcp_measure a s obs)))"
proof (induction obs arbitrary: s)
  case Nil
  show ?case by simp
next
  case (Cons ob obs)
  show ?case
  proof (cases "recv ob")
    case (Data n)
    obtain out s' where r: "on_receive s n (time_now ob) = (out, s')"
      by (cases "on_receive s n (time_now ob)")
    from on_receive_spaced [OF r Cons.IH [of s']]
    have more: "spaced (last_report_time s - start_time s)
        (sample_times out @ sample_times (fst (tcp_measure a s' obs)))" .
    have "spaced (last_report_time s' - start_time s') []" by simp
    from on_receive_spaced [OF r this]
    have last: "spaced (last_report_time s - start_time s) (sample_times out)" by simp
    from Data r more last show ?thesis by simp
  next
    case RecvTimeout
    with Cons.IH [of s] show ?thesis by simp
  next
    case (RecvFailed e)
    then show ?thesis by simp
  qed
qed

lemma udp_measure_spaced:
  "spaced (last_report_time s - start_time s) (sample_times (fst (udp_measure a s obs)))"
proof (induction obs arbitrary: s)
  case Nil
  show ?case by simp
next
  case (Cons ob obs)
  show ?case
  proof (cases "recv ob")
    case (Data n)
    obtain out s' where r: "on_receive s n (time_now ob) = (out, s')"
      by (cases "on_receive s n (time_now ob)")
    from on_receive_spaced [OF r Cons.IH [of s']]
    have more: "spaced (last_report_time s - start_time s)
        (sample_times out @ sample_times (fst (udp_measure a s' obs)))" .
    have "spaced (last_report_time s' - start_time s') []" by simp
    from on_receive_spaced [OF r this]
    have last: "spaced (last_report_time s - start_time s) (sample_times out)" by simp
    from Data r more last show ?thesis by simp
  next
    case RecvTimeout
    with Cons.IH [of s] show ?thesis by simp
  next
    case (RecvFailed e)
    then show ?thesis by simp
  qed
qed

lemma sample_times_final_report [simp]: "sample_times (final_report n started now) = []"
  by (simp add: final_report_def Let_def)

lemma sample_times_finish:
  "sample_times pre = [] \<Longrightarrow> sample_times (fst (finish pre r t_end)) = sample_times (fst r)"
  by (cases r) (simp add: finish_def)

lemma client_tcp_spaced: "spaced 0 (sample_times (fst (client_tcp a env)))"
proof -
  let ?s = "\<lambda>n. \<lparr>total_bytes = n, start_time = t_start env,
    last_report_time = t_start env, last_bytes = n\<rparr>"
  have "spaced 0 (sample_times (fst (tcp_measure a (?s n) (ticks env))))" for n
    using tcp_measure_spaced [of "?s n" a "ticks env"] by simp
  then show ?thesis
    by (simp add: client_tcp_def Let_def sample_times_finish
        split: connect_result.splits recv_result.splits)
qed

lemma client_udp_spaced: "spaced 0 (sample_times (fst (client_udp a env)))"
proof -
  let ?s = "\<lambda>n. \<lparr>total_bytes = n, start_time = t_start env,
    last_report_time = t_start env, last_bytes = n\<rparr>"
  have "spaced 0 (sample_times (fst (udp_measure a (?s n) (ticks env))))" for n
    using udp_measure_spaced [of "?s n" a "ticks env"] by simp
  then show ?thesis
    by (simp add: client_udp_def Let_def sample_times_finish split: recv_result.splits)
qed

text \<open>
  Claim C7. On a receive at time \<open>now\<close>, a sample is reported exactly when at least
  one second has passed since the last report (or since the start): its rate, printed in
  Mbit/s, is the bytes since the last report times 8 over the seconds since the last
  report, and the reference time and byte count become the current ones; otherwise
  nothing is reported and only the total changes. In every trace of a receive loop and
  of a client, successive samples are at least one second apart, counted from the sample
  before and not from whole seconds of the clock.
\<close>

theorem samples_once_per_second:
  "(1 \<le> now - last_report_time s \<longrightarrow>
      (\<exists>rate. on_receive s n now =
         ([Print (Sample (now - start_time s) rate (total_bytes s + n))],
          s\<lparr>total_bytes := total_bytes s + n, last_report_time := now,
            last_bytes := total_bytes s + n\<rparr>)
       \<and> rate * 1000000 =
           (of_nat (total_bytes s + n) - of_nat (last_bytes s)) * 8 / (now - last_report_time s)))
   \<and> (now - last_report_time s < 1 \<longrightarrow>
        on_receive s n now = ([], s\<lparr>total_bytes := total_bytes s + n\<rparr>))
   \<and> spaced (last_report_time s - start_time s) (sample_times (fst (tcp_measure a s obs)))
   \<and> spaced (last_report_time s - start_time s) (sample_times (fst (udp_measure a s obs)))
   \<and> spaced 0 (sample_times (fst (client_tcp a env)))
   \<and> spaced 0 (sample_times (fst (client_udp a env)))"
proof -
  have "\<exists>rate. on_receive s n now =
         ([Print (Sample (now - start_time s) rate (total_bytes s + n))],
          s\<lparr>total_bytes := total_bytes s + n, last_report_time := now,
            last_bytes := total_bytes s + n\<rparr>)
       \<and> rate * 1000000 =
           (of_nat (total_bytes s + n) - of_nat (last_bytes s)) * 8 / (now - last_report_time s)"
    if "1 \<le> now - last_report_time s"
  proof -
    let ?rate = "(of_nat (total_bytes s + n) - of_nat (last_bytes s)) * 8 /
        (now - last_report_time s) / 1000000"
    from that have "on_receive s n now =
         ([Print (Sample (now - start_time s) ?rate (total_bytes s + n))],
          s\<lparr>total_bytes := total_bytes s + n, last_report_time := now,
            last_bytes := total_bytes s + n\<rparr>)"
      by (simp add: on_receive_def Let_def)
    moreover have "?rate * 1000000 =
        (of_nat (total_bytes s + n) - of_nat (last_bytes s)) * 8 / (now - last_report_time s)"
      by (rule mega_cancel)
    ultimately show ?thesis by blast
  qed
  moreover have "on_receive s n now = ([], s\<lparr>total_bytes := total_bytes s + n\<rparr>)"
    if "now - last_report_time s < 1"
    using that by (simp add: on_receive_def Let_def)
  ultimately show ?thesis
    using tcp_measure_spaced [of s a obs] udp_measure_spaced [of s a obs]
      client_tcp_spaced [of a env] client_udp_spaced [of a env]
    by blast
qed


theorem samples_once_per_second_witness:
  "1 \<le> (5 / 4 :: rat) - last_report_time (fresh\<lparr>total_bytes := 2800\<rparr>)
   \<and> on_receive (fresh\<lparr>total_bytes := 2800\<rparr>) 1400 (5 / 4) =
       ([Print (Sample (5 / 4) (112 / 6250) 4200)],
        \<lparr>total_bytes = 4200, start_time = 0, last_report_time = 5 / 4, last_bytes = 4200\<rparr>)
   \<and> (1 / 2 :: rat) - last_report_time fresh < 1
   \<and> on_receive fresh 1400 (1 / 2) = ([], fresh\<lparr>total_bytes := 2800\<rparr>)
   \<and> sample_times (fst (client_tcp default_args busy_env)) = [5 / 4, 5 / 2]
   \<and> spaced 0 (sample_times (fst (client_tcp default_args busy_env)))
   \<and> sample_times (fst (client_udp default_args busy_env)) = [5 / 4, 5 / 2]
   \<and> spaced 0 (sample_times (fst (client_udp default_args busy_env)))"
  using samples_once_per_second [of "5 / 4" "fresh\<lparr>total_bytes := 2800\<rparr>" 1400 default_args
      "[]" busy_env]
    samples_once_per_second [of "1 / 2" fresh 1400 default_args "[]" busy_env]
  by (simp add: fresh_def busy_env_def quiet_def default_args_def on_receive_def
      client_tcp_def client_udp_def finish_def final_report_def emitting_def)

end
